theory Spec2Isabelle
  imports Main "HOL-Library.FSet"
begin

section \<open>The document store and the calls a handler makes\<close>

text \<open>
  The three Cloud Functions of \<^verbatim>\<open>functions/index.js\<close> share one Firestore database and
  nothing else. The store is modelled by the four places the handlers touch:
  the documents of \<^verbatim>\<open>pubblicazioni\<close>, the subcollection \<^verbatim>\<open>likes\<close> of each of them, the
  collections \<^verbatim>\<open>comments\<close> below \<^verbatim>\<open>pubblicazioni\<close>, and the single document
  \<^verbatim>\<open>configurazioniApp/vincitoreDelGiorno\<close>. A subcollection exists independently of its
  parent document. The documents and their \<^verbatim>\<open>likes\<close> are addressed by the document id; a
  \<^verbatim>\<open>comments\<close> collection is addressed by the path, below \<^verbatim>\<open>pubblicazioni\<close>, of the document
  it hangs from (the list of its segments: \<open>[id]\<close> for the document of a post), because
  \<^verbatim>\<open>postComment\<close> builds that reference from a string of the caller.

  A Firestore timestamp is a pair of seconds and nanoseconds.
\<close>

record fs_timestamp =
  seconds :: int
  nanoseconds :: int

text \<open>
  \<^verbatim>\<open>FieldValue.serverTimestamp()\<close> is a sentinel that the store replaces by its own clock
  when the write is applied.
\<close>

datatype time_field = ServerTimestamp | At fs_timestamp

datatype 'a nullable = Null | Val 'a

text \<open>
  A document of \<^verbatim>\<open>pubblicazioni\<close>. Every field but the timestamp may be missing
  (\<open>None\<close>). The field \<^verbatim>\<open>likes\<close> is a count: its only writer in this repository,
  \<^verbatim>\<open>updateLikesCount\<close>, stores the size of a snapshot.
\<close>

record post =
  imageUrl :: "string option"
  thumbnailUrl :: "string option"
  likes :: "nat option"
  userName :: "string option"
  userPhotoURL :: "string option"
  timestamp :: fs_timestamp
  description :: "string option"

text \<open>The object built for the field \<^verbatim>\<open>winner\<close> by \<^verbatim>\<open>calculateDailyWinner\<close>.\<close>

record winner =
  w_postId :: string
  w_imageUrl :: "string option"
  w_thumbnailUrl :: "string option"
  w_likes :: int
  w_userName :: string
  w_userPhotoURL :: string
  w_timestamp :: fs_timestamp
  w_description :: string

text \<open>
  The document \<^verbatim>\<open>configurazioniApp/vincitoreDelGiorno\<close>. A field that the written object
  does not have is \<open>None\<close>; \<^verbatim>\<open>winner: null\<close> is \<open>Some Null\<close>.
\<close>

record daily_winner =
  hasWinner :: bool
  dw_winner :: "winner nullable option"
  dw_message :: "string option"
  calculatedAt :: time_field

text \<open>The object \<^verbatim>\<open>commentData\<close> of \<^verbatim>\<open>postComment\<close>.\<close>

record comment =
  c_text :: string
  c_userId :: string
  c_userName :: string
  c_userImage :: "string nullable"
  c_timestamp :: time_field
  c_flagCount :: int
  c_isHidden :: bool

record store =
  pubblicazioni :: "string \<rightharpoonup> post"
  likes_coll :: "string \<Rightarrow> string fset"
  comments_coll :: "string list \<Rightarrow> comment list"
  vincitoreDelGiorno :: "daily_winner option"

text \<open>
  Every call that leaves the process is recorded, in order, whether it succeeds or not:
  the trace of an invocation shows what it attempted and how often.
\<close>

datatype ext_call =
    LikesGet string
  | PostUpdate string nat
  | PostsQuery fs_timestamp
  | WinnerSet daily_winner
  | GenerateContent string
  | CommentAdd "string list" comment

text \<open>
  What a handler throws or returns. \<^verbatim>\<open>HttpsError\<close> is the class of
  \<^verbatim>\<open>firebase-functions\<close>; the Firestore and Gemini clients raise errors of their own
  classes, which are never instances of it, and so does the language (\<^verbatim>\<open>TypeError\<close>):
  all of these are \<open>JsError\<close> with their detail.
\<close>

datatype error_code = Unauthenticated | PermissionDenied | InvalidArgument | Internal

datatype exn = HttpsError error_code string | JsError string

datatype js_value =
    JUndefined
  | JNull
  | JBool bool
  | JNum int
  | JStr string
  | JObj "(string \<times> js_value) list"

subsection \<open>Store operations\<close>

text \<open>
  Each operation takes the failure the environment injects into it (\<open>None\<close>: the call
  goes through). \<^verbatim>\<open>update\<close> on a document reference fails when the document does not
  exist; \<^verbatim>\<open>set\<close> and \<^verbatim>\<open>add\<close> create what they write. Building a document reference
  from a string can fail by itself, before any call: see \<open>doc_ref\<close> below.
\<close>

definition resolve_time :: "fs_timestamp \<Rightarrow> time_field \<Rightarrow> time_field" where
  "resolve_time clock t = (case t of ServerTimestamp \<Rightarrow> At clock | At u \<Rightarrow> At u)"

definition likes_get :: "string option \<Rightarrow> string \<Rightarrow> store \<Rightarrow> exn + string fset" where
  "likes_get fault pubId s =
     (case fault of Some d \<Rightarrow> Inl (JsError d) | None \<Rightarrow> Inr (likes_coll s pubId))"

definition post_update :: "string option \<Rightarrow> string \<Rightarrow> nat \<Rightarrow> store \<Rightarrow> exn + store" where
  "post_update fault pubId n s =
     (case fault of
        Some d \<Rightarrow> Inl (JsError d)
      | None \<Rightarrow>
          (case pubblicazioni s pubId of
             None \<Rightarrow> Inl (JsError ''NOT_FOUND'')
           | Some p \<Rightarrow> Inr (s\<lparr>pubblicazioni := (pubblicazioni s)(pubId \<mapsto> p\<lparr>likes := Some n\<rparr>)\<rparr>)))"

section \<open>updateLikesCount\<close>

text \<open>
  The trigger on \<^verbatim>\<open>pubblicazioni/{pubId}/likes/{userId}\<close>. The environment of one
  invocation says whether the read and the write fail. The \<^verbatim>\<open>pubId\<close> of an invocation is
  the segment of the path of the written document that \<^verbatim>\<open>{pubId}\<close> matches, a document id,
  so that the reference \<^verbatim>\<open>doc(pubId)\<close> can always be built.
\<close>

record likes_env =
  get_fault :: "string option"
  update_fault :: "string option"

text \<open>The body of the \<^verbatim>\<open>try\<close> block: the result, the store and the calls made.\<close>

definition updateLikesCount_try ::
  "likes_env \<Rightarrow> string \<Rightarrow> store \<Rightarrow> (exn + js_value) \<times> store \<times> ext_call list" where
  "updateLikesCount_try env pubId s =
     (case likes_get (get_fault env) pubId s of
        Inl e \<Rightarrow> (Inl e, s, [LikesGet pubId])
      | Inr likesSnapshot \<Rightarrow>
          (let likesCount = fcard likesSnapshot in
           case post_update (update_fault env) pubId likesCount s of
             Inl e \<Rightarrow> (Inl e, s, [LikesGet pubId, PostUpdate pubId likesCount])
           | Inr s' \<Rightarrow> (Inr JNull, s', [LikesGet pubId, PostUpdate pubId likesCount])))"

text \<open>The handler: the \<^verbatim>\<open>catch\<close> logs the error and returns \<^verbatim>\<open>null\<close>.\<close>

definition updateLikesCount ::
  "likes_env \<Rightarrow> string \<Rightarrow> store \<Rightarrow> (exn + js_value) \<times> store \<times> ext_call list" where
  "updateLikesCount env pubId s =
     (case updateLikesCount_try env pubId s of
        (Inl error, s', calls) \<Rightarrow> (Inr JNull, s', calls)
      | (Inr v, s', calls) \<Rightarrow> (Inr v, s', calls))"

subsection \<open>Like events and overlapping invocations\<close>

text \<open>
  A client creates or deletes \<^verbatim>\<open>pubblicazioni/{pubId}/likes/{userId}\<close>; each such write fires
  the trigger once.
\<close>

datatype like_event = LikeCreate string string | LikeDelete string string

fun event_post :: "like_event \<Rightarrow> string" where
  "event_post (LikeCreate pubId userId) = pubId"
| "event_post (LikeDelete pubId userId) = pubId"

fun apply_event :: "like_event \<Rightarrow> store \<Rightarrow> store" where
  "apply_event (LikeCreate pubId userId) s =
     s\<lparr>likes_coll := (likes_coll s)(pubId := finsert userId (likes_coll s pubId))\<rparr>"
| "apply_event (LikeDelete pubId userId) s =
     s\<lparr>likes_coll := (likes_coll s)(pubId := likes_coll s pubId |-| {|userId|})\<rparr>"

definition no_faults :: likes_env where
  "no_faults = \<lparr>get_fault = None, update_fault = None\<rparr>"

text \<open>The counter of a post agrees with its \<^verbatim>\<open>likes\<close> subcollection.\<close>

definition likes_in_sync :: "string \<Rightarrow> store \<Rightarrow> bool" where
  "likes_in_sync pubId s =
     (case pubblicazioni s pubId of
        None \<Rightarrow> False
      | Some p \<Rightarrow> likes p = Some (fcard (likes_coll s pubId)))"

text \<open>
  The handler is \<^verbatim>\<open>async\<close> and suspends at its two \<^verbatim>\<open>await\<close>s: at the read of the
  subcollection and at the update of the post. The platform runs one invocation per event
  and does not serialise them, so between the read and the write of one invocation other
  events and other invocations may take their turn. An invocation in flight has either not
  read yet (\<open>Started\<close>) or holds the \<^verbatim>\<open>likesCount\<close> it has read (\<open>Counted\<close>);
  \<open>resume\<close> runs it up to its next \<^verbatim>\<open>await\<close>, with the same store operations as
  \<open>updateLikesCount_try\<close> and no failure injected.
\<close>

datatype invocation = Started string | Counted string nat

record system =
  sys_store :: store
  in_flight :: "invocation list"
  failed :: nat

datatype action = Event like_event | Resume nat

definition drop_nth :: "nat \<Rightarrow> 'a list \<Rightarrow> 'a list" where
  "drop_nth i xs = take i xs @ drop (Suc i) xs"

fun resume :: "invocation \<Rightarrow> store \<Rightarrow> store \<times> invocation option \<times> bool" where
  "resume (Started pubId) s =
     (case likes_get None pubId s of
        Inl e \<Rightarrow> (s, None, False)
      | Inr likesSnapshot \<Rightarrow> (s, Some (Counted pubId (fcard likesSnapshot)), True))"
| "resume (Counted pubId likesCount) s =
     (case post_update None pubId likesCount s of
        Inl e \<Rightarrow> (s, None, False)
      | Inr s' \<Rightarrow> (s', None, True))"

fun step :: "action \<Rightarrow> system \<Rightarrow> system" where
  "step (Event ev) sys =
     sys\<lparr>sys_store := apply_event ev (sys_store sys),
         in_flight := in_flight sys @ [Started (event_post ev)]\<rparr>"
| "step (Resume i) sys =
     (if i < length (in_flight sys) then
        (case resume (in_flight sys ! i) (sys_store sys) of
           (s', Some waiting, ok) \<Rightarrow>
             sys\<lparr>sys_store := s', in_flight := (in_flight sys)[i := waiting]\<rparr>
         | (s', None, ok) \<Rightarrow>
             sys\<lparr>sys_store := s', in_flight := drop_nth i (in_flight sys),
                 failed := (if ok then failed sys else Suc (failed sys))\<rparr>)
      else sys)"

fun run :: "action list \<Rightarrow> system \<Rightarrow> system" where
  "run [] sys = sys"
| "run (a # as) sys = run as (step a sys)"

text \<open>
  Two invocations for the same post overlap when one of them reads or writes between the
  read and the write of the other. A schedule is free of that when every \<open>Resume\<close> meets
  an invocation that exists and finds no other invocation for the same post that has read
  and not yet written. Events are not restricted: they may come in bursts, and also between
  the read and the write of an invocation.
\<close>

fun invocation_post :: "invocation \<Rightarrow> string" where
  "invocation_post (Started pubId) = pubId"
| "invocation_post (Counted pubId likesCount) = pubId"

fun has_read :: "invocation \<Rightarrow> bool" where
  "has_read (Started pubId) = False"
| "has_read (Counted pubId likesCount) = True"

fun unhindered :: "action \<Rightarrow> system \<Rightarrow> bool" where
  "unhindered (Event ev) sys = True"
| "unhindered (Resume i) sys =
     (i < length (in_flight sys) \<and>
      (\<forall>v \<in> set (drop_nth i (in_flight sys)).
         invocation_post v = invocation_post (in_flight sys ! i) \<longrightarrow> \<not> has_read v))"

fun non_overlapping :: "action list \<Rightarrow> system \<Rightarrow> bool" where
  "non_overlapping [] sys = True"
| "non_overlapping (a # as) sys = (unhindered a sys \<and> non_overlapping as (step a sys))"

text \<open>
  What such a schedule maintains for an existing post, once an event has concerned it:
  an invocation for the post is still to read, or every invocation for it that has read
  holds the current number of likes and, if there is none, the counter is right. Before
  the first event on the post, no invocation for it is in flight.
\<close>

definition on_the_way :: "string \<Rightarrow> system \<Rightarrow> bool" where
  "on_the_way p sys =
     (pubblicazioni (sys_store sys) p \<noteq> None \<and>
      (Started p \<in> set (in_flight sys) \<or>
       ((\<forall>n. Counted p n \<in> set (in_flight sys) \<longrightarrow> n = fcard (likes_coll (sys_store sys) p)) \<and>
        ((\<exists>n. Counted p n \<in> set (in_flight sys)) \<or> likes_in_sync p (sys_store sys)))))"

definition untouched :: "string \<Rightarrow> system \<Rightarrow> bool" where
  "untouched p sys =
     (pubblicazioni (sys_store sys) p \<noteq> None \<and>
      (\<forall>v \<in> set (in_flight sys). invocation_post v \<noteq> p))"

text \<open>
  Two users like the same post in quick succession: the first invocation reads one like,
  the second reads two and writes, and the first writes last.
\<close>

definition race_post :: post where
  "race_post = \<lparr>imageUrl = Some ''a.jpg'', thumbnailUrl = None, likes = Some 0,
     userName = None, userPhotoURL = None,
     timestamp = \<lparr>seconds = 0, nanoseconds = 0\<rparr>, description = None\<rparr>"

definition race_start :: system where
  "race_start =
     \<lparr>sys_store = \<lparr>pubblicazioni = [''p1'' \<mapsto> race_post], likes_coll = (\<lambda>_. {||}),
                   comments_coll = (\<lambda>_. []), vincitoreDelGiorno = None\<rparr>,
      in_flight = [], failed = 0\<rparr>"

definition race_trace :: "action list" where
  "race_trace = [Event (LikeCreate ''p1'' ''u1''), Resume 0,
                 Event (LikeCreate ''p1'' ''u2''), Resume 1, Resume 1, Resume 0]"

text \<open>
  A burst without overlap: two likes arrive before any invocation runs, the first invocation
  reads, an unlike arrives before it writes, and the three invocations then run one after
  the other.
\<close>

definition burst_trace :: "action list" where
  "burst_trace = [Event (LikeCreate ''p1'' ''u1''), Event (LikeCreate ''p1'' ''u2''), Resume 0,
                  Event (LikeDelete ''p1'' ''u1''), Resume 0, Resume 0, Resume 0, Resume 0,
                  Resume 0]"

section \<open>calculateDailyWinner\<close>

text \<open>
  JavaScript's \<^verbatim>\<open>x || d\<close> on a field that is a string, a number or missing: the default
  is taken when the field is missing and also when it is the empty string or zero.
\<close>

definition str_or :: "string option \<Rightarrow> string \<Rightarrow> string" where
  "str_or x d = (case x of None \<Rightarrow> d | Some v \<Rightarrow> if v = [] then d else v)"

definition opt_or :: "string option \<Rightarrow> string option \<Rightarrow> string option" where
  "opt_or x y = (case x of None \<Rightarrow> y | Some v \<Rightarrow> if v = [] then y else Some v)"

definition num_or :: "nat option \<Rightarrow> int \<Rightarrow> int" where
  "num_or x d = (case x of None \<Rightarrow> d | Some n \<Rightarrow> if n = 0 then d else int n)"

definition or_null :: "string option \<Rightarrow> string nullable" where
  "or_null x = (case x of None \<Rightarrow> Null | Some v \<Rightarrow> if v = [] then Null else Val v)"

text \<open>
  The environment of one scheduled run: the clock read by \<^verbatim>\<open>Timestamp.now()\<close>, what the
  query returns (the documents as pairs of id and data, in the order of the snapshot, or a
  failure), whether the \<^verbatim>\<open>set\<close> fails, and the store's clock when it applies the write.
\<close>

record winner_env =
  now :: fs_timestamp
  query_outcome :: "string + (string \<times> post) list"
  set_fault :: "string option"
  set_clock :: fs_timestamp

definition config_set ::
  "string option \<Rightarrow> fs_timestamp \<Rightarrow> daily_winner \<Rightarrow> store \<Rightarrow> exn + store" where
  "config_set fault clock d s =
     (case fault of
        Some e \<Rightarrow> Inl (JsError e)
      | None \<Rightarrow>
          Inr (s\<lparr>vincitoreDelGiorno :=
                   Some (d\<lparr>calculatedAt := resolve_time clock (calculatedAt d)\<rparr>)\<rparr>))"

text \<open>
  The callback of \<^verbatim>\<open>postsSnapshot.forEach\<close>, on the two variables it updates.
\<close>

definition visit :: "winner nullable \<times> int \<Rightarrow> string \<times> post \<Rightarrow> winner nullable \<times> int" where
  "visit st doc =
     (case st of (winner, maxLikes) \<Rightarrow>
      case doc of (docId, data) \<Rightarrow>
        (let likes = num_or (likes data) 0 in
         if likes > maxLikes then
           (Val \<lparr>w_postId = docId,
                 w_imageUrl = imageUrl data,
                 w_thumbnailUrl = opt_or (thumbnailUrl data) (imageUrl data),
                 w_likes = likes,
                 w_userName = str_or (userName data) ''Anonimo'',
                 w_userPhotoURL = str_or (userPhotoURL data) [],
                 w_timestamp = timestamp data,
                 w_description = str_or (description data) []\<rparr>,
            likes)
         else (winner, maxLikes)))"

fun forEach :: "(string \<times> post) list \<Rightarrow> winner nullable \<times> int \<Rightarrow> winner nullable \<times> int" where
  "forEach [] st = st"
| "forEach (doc # docs) st = forEach docs (visit st doc)"

definition calculateDailyWinner_try ::
  "winner_env \<Rightarrow> store \<Rightarrow> (exn + js_value) \<times> store \<times> ext_call list" where
  "calculateDailyWinner_try env s =
     (let twentyFourHoursAgo =
            \<lparr>seconds = seconds (now env) - (24 * 60 * 60), nanoseconds = nanoseconds (now env)\<rparr>
      in
      case query_outcome env of
        Inl d \<Rightarrow> (Inl (JsError d), s, [PostsQuery twentyFourHoursAgo])
      | Inr docs \<Rightarrow>
          if docs = [] then
            (let placeholder = \<lparr>hasWinner = False, dw_winner = None,
                    dw_message = Some ''Nessuna pubblicazione oggi'',
                    calculatedAt = ServerTimestamp\<rparr>
             in
             case config_set (set_fault env) (set_clock env) placeholder s of
               Inl e \<Rightarrow> (Inl e, s, [PostsQuery twentyFourHoursAgo, WinnerSet placeholder])
             | Inr s' \<Rightarrow> (Inr JNull, s', [PostsQuery twentyFourHoursAgo, WinnerSet placeholder]))
          else
            (let winner = fst (forEach docs (Null, - 1));
                 written = \<lparr>hasWinner = True, dw_winner = Some winner, dw_message = None,
                    calculatedAt = ServerTimestamp\<rparr>
             in
             case config_set (set_fault env) (set_clock env) written s of
               Inl e \<Rightarrow> (Inl e, s, [PostsQuery twentyFourHoursAgo, WinnerSet written])
             | Inr s' \<Rightarrow>
                 (case winner of
                    Null \<Rightarrow> (Inl (JsError ''TypeError''), s',
                              [PostsQuery twentyFourHoursAgo, WinnerSet written])
                  | Val w \<Rightarrow> (Inr JNull, s',
                              [PostsQuery twentyFourHoursAgo, WinnerSet written]))))"

definition calculateDailyWinner ::
  "winner_env \<Rightarrow> store \<Rightarrow> (exn + js_value) \<times> store \<times> ext_call list" where
  "calculateDailyWinner env s =
     (case calculateDailyWinner_try env s of
        (Inl error, s', calls) \<Rightarrow> (Inr JNull, s', calls)
      | (Inr v, s', calls) \<Rightarrow> (Inr v, s', calls))"

text \<open>Timestamps are ordered by seconds, then by nanoseconds.\<close>

definition ts_le :: "fs_timestamp \<Rightarrow> fs_timestamp \<Rightarrow> bool" where
  "ts_le a b =
     (seconds a < seconds b \<or> (seconds a = seconds b \<and> nanoseconds a \<le> nanoseconds b))"

definition likes_of :: "string \<times> post \<Rightarrow> int" where
  "likes_of doc = num_or (likes (snd doc)) 0"

section \<open>postComment\<close>

subsection \<open>Values and strings of the language\<close>

text \<open>
  A string is a list of characters; the operations on strings are modelled on the
  characters a \<open>char\<close> can hold. \<^verbatim>\<open>trim\<close> removes white space and line terminators at both
  ends, \<^verbatim>\<open>toUpperCase\<close> maps the letters \<^verbatim>\<open>a\<close> to \<^verbatim>\<open>z\<close>, and \<^verbatim>\<open>includes\<close> looks for a
  contiguous occurrence.
\<close>

definition is_space :: "char \<Rightarrow> bool" where
  "is_space c = (c \<in> set [CHR 0x09, CHR 0x0A, CHR 0x0B, CHR 0x0C, CHR 0x0D, CHR 0x20, CHR 0xA0])"

definition trim :: "string \<Rightarrow> string" where
  "trim s = rev (dropWhile is_space (rev (dropWhile is_space s)))"

definition upper_char :: "char \<Rightarrow> char" where
  "upper_char c =
     (case map_of (zip ''abcdefghijklmnopqrstuvwxyz'' ''ABCDEFGHIJKLMNOPQRSTUVWXYZ'') c of
        None \<Rightarrow> c
      | Some u \<Rightarrow> u)"

definition toUpperCase :: "string \<Rightarrow> string" where
  "toUpperCase s = map upper_char s"

fun starts_with :: "string \<Rightarrow> string \<Rightarrow> bool" where
  "starts_with s [] = True"
| "starts_with [] (c # cs) = False"
| "starts_with (d # ds) (c # cs) = (d = c \<and> starts_with ds cs)"

fun includes_str :: "string \<Rightarrow> string \<Rightarrow> bool" where
  "includes_str [] sub = (sub = [])"
| "includes_str (d # ds) sub = (starts_with (d # ds) sub \<or> includes_str ds sub)"

fun truthy :: "js_value \<Rightarrow> bool" where
  "truthy JUndefined = False"
| "truthy JNull = False"
| "truthy (JBool b) = b"
| "truthy (JNum n) = (n \<noteq> 0)"
| "truthy (JStr s) = (s \<noteq> [])"
| "truthy (JObj props) = True"

fun typeof :: "js_value \<Rightarrow> string" where
  "typeof JUndefined = ''undefined''"
| "typeof JNull = ''object''"
| "typeof (JBool b) = ''boolean''"
| "typeof (JNum n) = ''number''"
| "typeof (JStr s) = ''string''"
| "typeof (JObj props) = ''object''"

text \<open>
  Reading a property: of an object, the field or \<^verbatim>\<open>undefined\<close>; of a primitive value,
  \<^verbatim>\<open>undefined\<close>; of \<^verbatim>\<open>null\<close> and \<^verbatim>\<open>undefined\<close>, a \<^verbatim>\<open>TypeError\<close>.
\<close>

fun property :: "js_value \<Rightarrow> string \<Rightarrow> exn + js_value" where
  "property JUndefined k = Inl (JsError ''TypeError'')"
| "property JNull k = Inl (JsError ''TypeError'')"
| "property (JObj props) k = Inr (case map_of props k of None \<Rightarrow> JUndefined | Some v \<Rightarrow> v)"
| "property v k = Inr JUndefined"

text \<open>The pattern \<^verbatim>\<open>const {pubId, text} = data\<close>.\<close>

definition destructure :: "js_value \<Rightarrow> exn + js_value \<times> js_value" where
  "destructure data =
     (case property data ''pubId'' of
        Inl e \<Rightarrow> Inl e
      | Inr pubId \<Rightarrow> (case property data ''text'' of Inl e \<Rightarrow> Inl e | Inr text \<Rightarrow> Inr (pubId, text)))"

fun string_of :: "js_value \<Rightarrow> string" where
  "string_of (JStr s) = s"
| "string_of v = []"

subsection \<open>The caller, the classifier and the handler\<close>

text \<open>
  \<^verbatim>\<open>context.auth\<close>, when the platform has verified a caller: the subject, the claims
  \<^verbatim>\<open>name\<close> and \<^verbatim>\<open>picture\<close> of the token (either may be missing) and
  \<^verbatim>\<open>token.firebase.sign_in_provider\<close>.
\<close>

record auth =
  uid :: string
  token_name :: "string option"
  token_picture :: "string option"
  sign_in_provider :: string

text \<open>
  What the Gemini client gives back: \<^verbatim>\<open>generateContent\<close> throws or resolves to a response,
  whose method \<^verbatim>\<open>text()\<close> throws or returns the verdict, and whose
  \<^verbatim>\<open>promptFeedback?.blockReason\<close> is a string or is missing.
\<close>

record gen_response =
  text_outcome :: "string + string"
  blockReason :: "string option"

record comment_env =
  generateContent :: "string \<Rightarrow> string + gen_response"
  add_fault :: "string option"
  add_clock :: fs_timestamp

text \<open>
  \<^verbatim>\<open>db.collection('pubblicazioni').doc(pubId)\<close>: the client builds the reference without
  asking the store, and throws when the string does not name a document. The string must
  not be empty nor contain \<^verbatim>\<open>//\<close>; it is split at \<^verbatim>\<open>/\<close>, empty segments (a leading or
  trailing slash) are dropped, and the segments, appended to the collection, must make a
  document path, that is, be odd in number. So \<^verbatim>\<open>p1\<close> is the document \<^verbatim>\<open>pubblicazioni/p1\<close>,
  \<^verbatim>\<open>a/b/c\<close> is a document two levels further down, and \<^verbatim>\<open>a/b\<close> is refused.
\<close>

fun split_on :: "char \<Rightarrow> string \<Rightarrow> string \<Rightarrow> string list" where
  "split_on sep cur [] = [rev cur]"
| "split_on sep cur (c # cs) =
     (if c = sep then rev cur # split_on sep [] cs else split_on sep (c # cur) cs)"

definition path_segments :: "string \<Rightarrow> string list" where
  "path_segments documentPath = filter (\<lambda>seg. seg \<noteq> []) (split_on (CHR ''/'') [] documentPath)"

definition doc_ref :: "string \<Rightarrow> exn + string list" where
  "doc_ref documentPath =
     (if documentPath = [] \<or> includes_str documentPath ''//'' then
        Inl (JsError ''Invalid resource path'')
      else if even (length (path_segments documentPath)) then
        Inl (JsError ''Not a document path'')
      else Inr (path_segments documentPath))"

text \<open>\<^verbatim>\<open>.collection('comments').add(commentData)\<close> on the reference of a document.\<close>

definition comments_add ::
  "string option \<Rightarrow> fs_timestamp \<Rightarrow> string list \<Rightarrow> comment \<Rightarrow> store \<Rightarrow> exn + store" where
  "comments_add fault clock path c s =
     (case fault of
        Some d \<Rightarrow> Inl (JsError d)
      | None \<Rightarrow>
          Inr (s\<lparr>comments_coll := (comments_coll s)(path :=
                   comments_coll s path @ [c\<lparr>c_timestamp := resolve_time clock (c_timestamp c)\<rparr>])\<rparr>))"

definition prompt_for :: "string \<Rightarrow> string" where
  "prompt_for trimmedText =
     ''Analizza se questo commento rispetta le linee guida della community '' @
     ''(no hate speech, no harassment, no contenuti offensivi). Commento: '' @
     [CHR 0x22] @ trimmedText @ [CHR 0x22] @ ''. Rispondi solo '' @
     [CHR 0x22] @ ''SAFE'' @ [CHR 0x22] @ '' o '' @ [CHR 0x22] @ ''UNSAFE'' @ [CHR 0x22] @ ''.''"

definition blocked :: "gen_response \<Rightarrow> bool" where
  "blocked response = (case blockReason response of None \<Rightarrow> False | Some r \<Rightarrow> r \<noteq> [])"

text \<open>The body of the \<^verbatim>\<open>try\<close> block, from the call of the classifier to the reply.\<close>

definition postComment_try ::
  "comment_env \<Rightarrow> auth \<Rightarrow> string \<Rightarrow> string \<Rightarrow> store \<Rightarrow> (exn + js_value) \<times> store \<times> ext_call list" where
  "postComment_try env a pubId trimmedText s =
     (let prompt = prompt_for trimmedText in
      case generateContent env prompt of
        Inl d \<Rightarrow> (Inl (JsError d), s, [GenerateContent prompt])
      | Inr response \<Rightarrow>
          (case text_outcome response of
             Inl d \<Rightarrow> (Inl (JsError d), s, [GenerateContent prompt])
           | Inr t \<Rightarrow>
               (let responseText = toUpperCase (trim t) in
                if blocked response \<or> includes_str responseText ''UNSAFE'' then
                  (Inl (HttpsError InvalidArgument
                          ''Il tuo commento viola le linee guida della community.''),
                   s, [GenerateContent prompt])
                else
                  (let commentData =
                         \<lparr>c_text = trimmedText,
                          c_userId = uid a,
                          c_userName = str_or (token_name a) ''Utente'',
                          c_userImage = or_null (token_picture a),
                          c_timestamp = ServerTimestamp,
                          c_flagCount = 0,
                          c_isHidden = False\<rparr>
                   in
                   case doc_ref pubId of
                     Inl e \<Rightarrow> (Inl e, s, [GenerateContent prompt])
                   | Inr path \<Rightarrow>
                       (case comments_add (add_fault env) (add_clock env) path commentData s of
                          Inl e \<Rightarrow>
                            (Inl e, s, [GenerateContent prompt, CommentAdd path commentData])
                        | Inr s' \<Rightarrow>
                            (Inr (JObj [(''success'', JBool True)]), s',
                             [GenerateContent prompt, CommentAdd path commentData]))))))"

text \<open>
  The \<^verbatim>\<open>catch\<close> of \<^verbatim>\<open>postComment\<close>: what it throws for what it has caught.
\<close>

definition rethrown :: "exn \<Rightarrow> exn" where
  "rethrown error =
     (case error of
        HttpsError code message \<Rightarrow> HttpsError code message
      | JsError d \<Rightarrow> HttpsError Internal ''Errore durante l'invio del commento. Riprova.'')"

definition postComment ::
  "comment_env \<Rightarrow> auth option \<Rightarrow> js_value \<Rightarrow> store \<Rightarrow> (exn + js_value) \<times> store \<times> ext_call list" where
  "postComment env context_auth data s =
     (case context_auth of
        None \<Rightarrow>
          (Inl (HttpsError Unauthenticated ''Devi essere autenticato per commentare.''), s, [])
      | Some a \<Rightarrow>
          if sign_in_provider a = ''anonymous'' then
            (Inl (HttpsError PermissionDenied
                    ''Gli utenti anonimi non possono commentare. Accedi con Google.''), s, [])
          else
            (case destructure data of
               Inl e \<Rightarrow> (Inl e, s, [])
             | Inr (pubId, text) \<Rightarrow>
                 if \<not> truthy pubId \<or> typeof pubId \<noteq> ''string'' then
                   (Inl (HttpsError InvalidArgument ''pubId mancante o non valido.''), s, [])
                 else if \<not> truthy text \<or> typeof text \<noteq> ''string'' then
                   (Inl (HttpsError InvalidArgument
                           (''Il testo del commento '' @ [CHR 0xE8] @ '' obbligatorio.'')), s, [])
                 else
                   (let trimmedText = trim (string_of text) in
                    if length trimmedText = 0 then
                      (Inl (HttpsError InvalidArgument
                              (''Il commento non pu'' @ [CHR 0xF2] @ '' essere vuoto.'')), s, [])
                    else if length trimmedText > 500 then
                      (Inl (HttpsError InvalidArgument
                              (''Il commento '' @ [CHR 0xE8] @
                               '' troppo lungo (max 500 caratteri).'')), s, [])
                    else
                      (case postComment_try env a (string_of pubId) trimmedText s of
                         (Inl error, s', calls) \<Rightarrow> (Inl (rethrown error), s', calls)
                       | (Inr v, s', calls) \<Rightarrow> (Inr v, s', calls)))))"

section \<open>Notions used to state the properties\<close>

text \<open>The snapshot that \<open>visit\<close> builds for a document, as a function of the document.\<close>

definition snapshot_of :: "string \<times> post \<Rightarrow> winner" where
  "snapshot_of doc =
     \<lparr>w_postId = fst doc,
      w_imageUrl = imageUrl (snd doc),
      w_thumbnailUrl = opt_or (thumbnailUrl (snd doc)) (imageUrl (snd doc)),
      w_likes = likes_of doc,
      w_userName = str_or (userName (snd doc)) ''Anonimo'',
      w_userPhotoURL = str_or (userPhotoURL (snd doc)) [],
      w_timestamp = timestamp (snd doc),
      w_description = str_or (description (snd doc)) []\<rparr>"

text \<open>A snapshot in the order of the query: no document is older than a later one.\<close>

definition newest_first :: "(string \<times> post) list \<Rightarrow> bool" where
  "newest_first docs = sorted_wrt (\<lambda>a b. ts_le (timestamp (snd b)) (timestamp (snd a))) docs"

text \<open>A field of a request object that is missing or holds something that is not a string.\<close>

definition missing_or_not_string :: "(string \<times> js_value) list \<Rightarrow> string \<Rightarrow> bool" where
  "missing_or_not_string props k =
     (case map_of props k of None \<Rightarrow> True | Some v \<Rightarrow> typeof v \<noteq> ''string'')"

text \<open>
  A call that reaches the classifier: the caller is signed in with a provider other than the
  anonymous one, the request yields the strings \<open>p\<close> for \<^verbatim>\<open>pubId\<close> and \<open>t\<close> for \<^verbatim>\<open>text\<close>,
  \<open>p\<close> is not empty and \<open>t\<close>, trimmed, has between 1 and 500 characters.
\<close>

definition passes_checks :: "auth \<Rightarrow> js_value \<Rightarrow> string \<Rightarrow> string \<Rightarrow> bool" where
  "passes_checks a data p t =
     (sign_in_provider a \<noteq> ''anonymous'' \<and> destructure data = Inr (JStr p, JStr t)
      \<and> p \<noteq> [] \<and> trim t \<noteq> [] \<and> length (trim t) \<le> 500)"

text \<open>The object \<^verbatim>\<open>commentData\<close> that the handler builds for a caller and a trimmed text.\<close>

definition comment_data :: "auth \<Rightarrow> string \<Rightarrow> comment" where
  "comment_data a trimmedText =
     \<lparr>c_text = trimmedText,
      c_userId = uid a,
      c_userName = str_or (token_name a) ''Utente'',
      c_userImage = or_null (token_picture a),
      c_timestamp = ServerTimestamp,
      c_flagCount = 0,
      c_isHidden = False\<rparr>"

subsection \<open>Sample data\<close>

definition sample_store :: store where
  "sample_store =
     \<lparr>pubblicazioni = [''p1'' \<mapsto> race_post], likes_coll = (\<lambda>_. {||}),
      comments_coll = (\<lambda>_. []), vincitoreDelGiorno = None\<rparr>"

definition sample_post :: "nat option \<Rightarrow> int \<Rightarrow> post" where
  "sample_post n t =
     \<lparr>imageUrl = Some ''img.jpg'', thumbnailUrl = None, likes = n, userName = Some ''Eva'',
      userPhotoURL = None, timestamp = \<lparr>seconds = t, nanoseconds = 0\<rparr>, description = None\<rparr>"

definition sample_docs :: "(string \<times> post) list" where
  "sample_docs =
     [(''a'', sample_post (Some 3) 400), (''b'', sample_post (Some 5) 300),
      (''c'', sample_post (Some 5) 200), (''d'', sample_post None 100)]"

definition sample_run :: "string + (string \<times> post) list \<Rightarrow> string option \<Rightarrow> winner_env" where
  "sample_run outcome fault =
     \<lparr>now = \<lparr>seconds = 90000, nanoseconds = 7\<rparr>, query_outcome = outcome, set_fault = fault,
      set_clock = \<lparr>seconds = 90001, nanoseconds = 0\<rparr>\<rparr>"

definition sample_auth :: "string \<Rightarrow> auth" where
  "sample_auth provider =
     \<lparr>uid = ''u1'', token_name = Some ''Ada'', token_picture = None,
      sign_in_provider = provider\<rparr>"

definition sample_call :: "string + gen_response \<Rightarrow> string option \<Rightarrow> comment_env" where
  "sample_call outcome fault =
     \<lparr>generateContent = (\<lambda>prompt. outcome), add_fault = fault,
      add_clock = \<lparr>seconds = 500, nanoseconds = 0\<rparr>\<rparr>"

definition verdict :: "string \<Rightarrow> string + gen_response" where
  "verdict v = Inr \<lparr>text_outcome = Inr v, blockReason = None\<rparr>"

definition sample_request :: js_value where
  "sample_request = JObj [(''pubId'', JStr ''p1''), (''text'', JStr '' ciao '')]"

definition renamed_request :: js_value where
  "renamed_request = JObj [(''postId'', JStr ''p1''), (''text'', JStr '' ciao '')]"

definition slash_request :: js_value where
  "slash_request = JObj [(''pubId'', JStr ''a/b''), (''text'', JStr '' ciao '')]"


section \<open>Properties of updateLikesCount\<close>

lemma updateLikesCount_outcome:
  "updateLikesCount env pubId s =
     (case get_fault env of
        Some d \<Rightarrow> (Inr JNull, s, [LikesGet pubId])
      | None \<Rightarrow>
          (case update_fault env of
             Some d \<Rightarrow>
               (Inr JNull, s, [LikesGet pubId, PostUpdate pubId (fcard (likes_coll s pubId))])
           | None \<Rightarrow>
               (case pubblicazioni s pubId of
                  None \<Rightarrow>
                    (Inr JNull, s,
                     [LikesGet pubId, PostUpdate pubId (fcard (likes_coll s pubId))])
                | Some p \<Rightarrow>
                    (Inr JNull,
                     s\<lparr>pubblicazioni := (pubblicazioni s)(pubId \<mapsto>
                          p\<lparr>likes := Some (fcard (likes_coll s pubId))\<rparr>)\<rparr>,
                     [LikesGet pubId, PostUpdate pubId (fcard (likes_coll s pubId))]))))"
  by (simp add: updateLikesCount_def updateLikesCount_try_def likes_get_def post_update_def
      Let_def split: option.splits)

lemma apply_event_posts [simp]: "pubblicazioni (apply_event ev s) = pubblicazioni s"
  by (cases ev) simp_all

lemma apply_event_other [simp]:
  "event_post ev \<noteq> pubId \<Longrightarrow> likes_coll (apply_event ev s) pubId = likes_coll s pubId"
  by (cases ev) simp_all

lemma set_drop_nth: "i < length xs \<Longrightarrow> set xs = insert (xs ! i) (set (drop_nth i xs))"
proof -
  assume "i < length xs"
  then have "xs = take i xs @ xs ! i # drop (Suc i) xs" by (rule id_take_nth_drop)
  then have "set xs = set (take i xs @ xs ! i # drop (Suc i) xs)" by simp
  then show ?thesis by (simp add: drop_nth_def)
qed

lemma set_update_drop_nth:
  "i < length xs \<Longrightarrow> set (xs[i := y]) = insert y (set (drop_nth i xs))"
  by (simp add: upd_conv_take_nth_drop drop_nth_def)

lemma resume_cases:
  "resume v s =
     (case v of
        Started q \<Rightarrow> (s, Some (Counted q (fcard (likes_coll s q))), True)
      | Counted q n \<Rightarrow>
          (case pubblicazioni s q of
             None \<Rightarrow> (s, None, False)
           | Some d \<Rightarrow>
               (s\<lparr>pubblicazioni := (pubblicazioni s)(q \<mapsto> d\<lparr>likes := Some n\<rparr>)\<rparr>, None, True)))"
  by (cases v) (simp_all add: likes_get_def post_update_def split: option.splits)

lemma likes_in_sync_event_other:
  "event_post ev \<noteq> p \<Longrightarrow> likes_in_sync p (apply_event ev s) = likes_in_sync p s"
  by (simp add: likes_in_sync_def split: option.splits)

lemma step_event_keeps:
  assumes "on_the_way p sys"
  shows "on_the_way p (step (Event ev) sys)"
proof (cases "event_post ev = p")
  case True
  with assms show ?thesis by (simp add: on_the_way_def)
next
  case False
  with assms show ?thesis
    by (auto simp: on_the_way_def likes_in_sync_event_other)
qed

text \<open>
  The step that needs the schedule to be free of overlap: an invocation that reads replaces
  a pending one, and what the other invocations for the post have read must not be older.
\<close>

lemma step_resume_keeps:
  assumes "on_the_way p sys" and "unhindered (Resume i) sys"
  shows "on_the_way p (step (Resume i) sys)"
proof -
  from assms(2) have i: "i < length (in_flight sys)"
      and alone: "\<forall>v \<in> set (drop_nth i (in_flight sys)).
         invocation_post v = invocation_post (in_flight sys ! i) \<longrightarrow> \<not> has_read v"
    by simp_all
  note whole = set_drop_nth [OF i]
  note upd = set_update_drop_nth [OF i]
  show ?thesis
  proof (cases "in_flight sys ! i")
    case (Started q)
    with assms(1) i alone whole show ?thesis
      by (auto simp: on_the_way_def resume_cases upd)
  next
    case (Counted q n)
    show ?thesis
    proof (cases "pubblicazioni (sys_store sys) q")
      case None
      with Counted assms(1) i alone whole show ?thesis
        by (auto simp: on_the_way_def resume_cases)
    next
      case (Some d)
      with Counted assms(1) i alone whole show ?thesis
        by (auto simp: on_the_way_def resume_cases likes_in_sync_def)
    qed
  qed
qed

lemma step_resume_untouched:
  assumes "untouched p sys"
  shows "untouched p (step (Resume i) sys)"
proof (cases "i < length (in_flight sys)")
  case False
  with assms show ?thesis by simp
next
  case True
  note whole = set_drop_nth [OF True]
  note upd = set_update_drop_nth [OF True]
  from assms True whole show ?thesis
    by (cases "in_flight sys ! i")
       (auto simp: untouched_def resume_cases upd split: option.splits)
qed

lemma step_event_untouched:
  assumes "untouched p sys" and "event_post ev \<noteq> p"
  shows "untouched p (step (Event ev) sys)"
  using assms by (simp add: untouched_def)

lemma untouched_event:
  assumes "untouched p sys" and "event_post ev = p"
  shows "on_the_way p (step (Event ev) sys)"
  using assms by (simp add: untouched_def on_the_way_def)

lemma on_the_way_done:
  assumes "on_the_way p sys" and "in_flight sys = []"
  shows "likes_in_sync p (sys_store sys)"
  using assms by (simp add: on_the_way_def)

lemma run_non_overlapping:
  assumes "non_overlapping acts sys"
      and "on_the_way p sys
           \<or> (untouched p sys \<and> (\<exists>ev. Event ev \<in> set acts \<and> event_post ev = p))"
      and "in_flight (run acts sys) = []"
  shows "likes_in_sync p (sys_store (run acts sys))"
  using assms
proof (induction acts arbitrary: sys)
  case Nil
  then show ?case by (simp add: on_the_way_done)
next
  case (Cons a acts)
  from Cons.prems(1) have ok: "unhindered a sys" and rest: "non_overlapping acts (step a sys)"
    by simp_all
  have "on_the_way p (step a sys)
        \<or> (untouched p (step a sys) \<and> (\<exists>ev. Event ev \<in> set acts \<and> event_post ev = p))"
  proof (cases a)
    case (Event ev)
    from Cons.prems(2) show ?thesis
    proof
      assume "on_the_way p sys"
      then show ?thesis unfolding Event by (intro disjI1 step_event_keeps)
    next
      assume u: "untouched p sys \<and> (\<exists>ev. Event ev \<in> set (a # acts) \<and> event_post ev = p)"
      show ?thesis
      proof (cases "event_post ev = p")
        case True
        with u show ?thesis unfolding Event by (intro disjI1 untouched_event) simp_all
      next
        case False
        with u Event have "\<exists>ev. Event ev \<in> set acts \<and> event_post ev = p" by auto
        moreover from u False have "untouched p (step (Event ev) sys)"
          by (intro step_event_untouched) simp_all
        ultimately show ?thesis unfolding Event by blast
      qed
    qed
  next
    case (Resume i)
    from Cons.prems(2) show ?thesis
    proof
      assume "on_the_way p sys"
      moreover from ok Resume have "unhindered (Resume i) sys" by simp
      ultimately show ?thesis unfolding Resume by (intro disjI1 step_resume_keeps)
    next
      assume u: "untouched p sys \<and> (\<exists>ev. Event ev \<in> set (a # acts) \<and> event_post ev = p)"
      with Resume have "\<exists>ev. Event ev \<in> set acts \<and> event_post ev = p" by auto
      moreover from u have "untouched p (step (Resume i) sys)"
        by (intro step_resume_untouched) simp
      ultimately show ?thesis unfolding Resume by blast
    qed
  qed
  with rest Cons.prems(3) show ?case
    using Cons.IH [of "step a sys"] by (simp del: step.simps)
qed

text \<open>The schedule of the race is not free of overlap; the schedule of the burst is.\<close>

lemma race_trace_overlaps: "\<not> non_overlapping race_trace race_start"
  by (simp add: race_trace_def race_start_def race_post_def likes_get_def post_update_def
      drop_nth_def fcard_finsert_if fcard_fempty)

lemma burst_trace_non_overlapping: "non_overlapping burst_trace race_start"
  by (simp add: burst_trace_def race_start_def race_post_def likes_get_def post_update_def
      drop_nth_def fcard_finsert_if fcard_fempty)

lemma burst_trace_completes: "in_flight (run burst_trace race_start) = []"
  by (simp add: burst_trace_def race_start_def race_post_def likes_get_def post_update_def
      drop_nth_def fcard_finsert_if fcard_fempty)

text \<open>
  An invocation that nothing interrupts is the in-flight invocation resumed twice: the
  interleaving model runs the code of the handler.
\<close>

lemma resume_twice_is_updateLikesCount:
  "sys_store (run [Resume 0, Resume 0] \<lparr>sys_store = s, in_flight = [Started pubId], failed = 0\<rparr>)
     = fst (snd (updateLikesCount no_faults pubId s))"
  by (simp add: updateLikesCount_outcome likes_get_def post_update_def no_faults_def drop_nth_def
      split: option.splits)

text \<open>
  Claim C3, as the code has it. An invocation whose read and write both succeed (no failure
  injected, the post exists) stores in the field \<^verbatim>\<open>likes\<close> of the post the number of
  documents of its \<^verbatim>\<open>likes\<close> subcollection as read, and changes nothing else. Therefore,
  in every run of like and unlike events and of the invocations they fire in which no two
  invocations for the same post overlap, once no invocation is pending the field equals the
  number of like documents, for every existing post that one of the events concerns. The
  events may come at any moment, in bursts and between the read and the write of an
  invocation; the invocations for other posts may overlap as they please.
\<close>

theorem updateLikesCount_sets_cardinality:
  "(get_fault env = None \<and> update_fault env = None \<and> pubblicazioni s pubId = Some p \<longrightarrow>
      updateLikesCount env pubId s =
        (Inr JNull,
         s\<lparr>pubblicazioni := (pubblicazioni s)(pubId \<mapsto>
              p\<lparr>likes := Some (fcard (likes_coll s pubId))\<rparr>)\<rparr>,
         [LikesGet pubId, PostUpdate pubId (fcard (likes_coll s pubId))]))
   \<and> (in_flight sys = [] \<and> pubblicazioni (sys_store sys) pubId \<noteq> None
        \<and> (\<exists>ev. Event ev \<in> set acts \<and> event_post ev = pubId)
        \<and> non_overlapping acts sys \<and> in_flight (run acts sys) = [] \<longrightarrow>
        likes_in_sync pubId (sys_store (run acts sys)))"
proof (intro conjI impI)
  assume "get_fault env = None \<and> update_fault env = None \<and> pubblicazioni s pubId = Some p"
  then show "updateLikesCount env pubId s =
        (Inr JNull,
         s\<lparr>pubblicazioni := (pubblicazioni s)(pubId \<mapsto>
              p\<lparr>likes := Some (fcard (likes_coll s pubId))\<rparr>)\<rparr>,
         [LikesGet pubId, PostUpdate pubId (fcard (likes_coll s pubId))])"
    by (simp add: updateLikesCount_outcome)
next
  assume a: "in_flight sys = [] \<and> pubblicazioni (sys_store sys) pubId \<noteq> None
        \<and> (\<exists>ev. Event ev \<in> set acts \<and> event_post ev = pubId)
        \<and> non_overlapping acts sys \<and> in_flight (run acts sys) = []"
  then have "untouched pubId sys" by (simp add: untouched_def)
  with a show "likes_in_sync pubId (sys_store (run acts sys))"
    by (intro run_non_overlapping) auto
qed

theorem updateLikesCount_sets_cardinality_witness:
  "get_fault no_faults = None \<and> update_fault no_faults = None
   \<and> pubblicazioni (apply_event (LikeCreate ''p1'' ''u1'') sample_store) ''p1'' = Some race_post
   \<and> updateLikesCount no_faults ''p1'' (apply_event (LikeCreate ''p1'' ''u1'') sample_store) =
        (Inr JNull,
         (apply_event (LikeCreate ''p1'' ''u1'') sample_store)\<lparr>pubblicazioni :=
            [''p1'' \<mapsto> race_post\<lparr>likes := Some 1\<rparr>]\<rparr>,
         [LikesGet ''p1'', PostUpdate ''p1'' 1])
   \<and> in_flight race_start = [] \<and> pubblicazioni (sys_store race_start) ''p1'' \<noteq> None
   \<and> (\<exists>ev. Event ev \<in> set burst_trace \<and> event_post ev = ''p1'')
   \<and> non_overlapping burst_trace race_start \<and> in_flight (run burst_trace race_start) = []
   \<and> likes_in_sync ''p1'' (sys_store (run burst_trace race_start))"
proof -
  have h1: "get_fault no_faults = None \<and> update_fault no_faults = None
      \<and> pubblicazioni (apply_event (LikeCreate ''p1'' ''u1'') sample_store) ''p1'' = Some race_post"
    by (simp add: no_faults_def sample_store_def)
  have h2: "in_flight race_start = [] \<and> pubblicazioni (sys_store race_start) ''p1'' \<noteq> None"
    by (simp add: race_start_def)
  have "Event (LikeCreate ''p1'' ''u1'') \<in> set burst_trace
      \<and> event_post (LikeCreate ''p1'' ''u1'') = ''p1''"
    by (simp add: burst_trace_def)
  then have h3: "\<exists>ev. Event ev \<in> set burst_trace \<and> event_post ev = ''p1''"
    by blast
  note inst = updateLikesCount_sets_cardinality
      [of no_faults "apply_event (LikeCreate ''p1'' ''u1'') sample_store" "''p1''" race_post
          race_start burst_trace]
  from inst h1 have one: "updateLikesCount no_faults ''p1''
        (apply_event (LikeCreate ''p1'' ''u1'') sample_store) =
        (Inr JNull,
         (apply_event (LikeCreate ''p1'' ''u1'') sample_store)\<lparr>pubblicazioni :=
            [''p1'' \<mapsto> race_post\<lparr>likes := Some 1\<rparr>]\<rparr>,
         [LikesGet ''p1'', PostUpdate ''p1'' 1])"
    by (simp add: sample_store_def fcard_finsert_if fcard_fempty)
  from inst h2 h3 burst_trace_non_overlapping burst_trace_completes
  have two: "likes_in_sync ''p1'' (sys_store (run burst_trace race_start))"
    by blast
  from h1 h2 h3 burst_trace_non_overlapping burst_trace_completes one two
  show ?thesis by blast
qed

text \<open>
  Claim C3, as stated, fails when two invocations overlap. Two users like the post
  \<^verbatim>\<open>p1\<close>; the first invocation reads one like, the second reads two and writes, and the
  first writes last. Both invocations have completed with success, none is pending, two like
  documents exist and the field \<^verbatim>\<open>likes\<close> is 1.
\<close>

theorem updateLikesCount_overlap_counterexample:
  "in_flight (run race_trace race_start) = []
   \<and> failed (run race_trace race_start) = 0
   \<and> map_option likes (pubblicazioni (sys_store (run race_trace race_start)) ''p1'') = Some (Some 1)
   \<and> fcard (likes_coll (sys_store (run race_trace race_start)) ''p1'') = 2"
  by (simp add: race_trace_def race_start_def race_post_def likes_get_def post_update_def
      drop_nth_def fcard_finsert_if)

text \<open>
  Claim C10. The handler never creates a document of \<^verbatim>\<open>pubblicazioni\<close>: after every
  invocation the same documents exist as before. Its write is an update, which the store
  refuses when the post does not exist; the refusal is swallowed, so that an event on a post
  that does not exist leaves the store as it was and the handler returns \<^verbatim>\<open>null\<close>.
\<close>

theorem updateLikesCount_never_creates_post:
  "dom (pubblicazioni (fst (snd (updateLikesCount env pubId s)))) = dom (pubblicazioni s)
   \<and> (pubblicazioni s pubId = None \<longrightarrow>
        post_update None pubId n s = Inl (JsError ''NOT_FOUND'')
        \<and> fst (updateLikesCount env pubId s) = Inr JNull
        \<and> fst (snd (updateLikesCount env pubId s)) = s)"
  by (auto simp: updateLikesCount_outcome post_update_def split: option.splits)

theorem updateLikesCount_never_creates_post_witness:
  "pubblicazioni sample_store ''ghost'' = None
   \<and> dom (pubblicazioni (fst (snd (updateLikesCount no_faults ''ghost'' sample_store)))) = {''p1''}
   \<and> post_update None ''ghost'' 0 sample_store = Inl (JsError ''NOT_FOUND'')
   \<and> fst (updateLikesCount no_faults ''ghost'' sample_store) = Inr JNull
   \<and> fst (snd (updateLikesCount no_faults ''ghost'' sample_store)) = sample_store"
  using updateLikesCount_never_creates_post [of no_faults "''ghost''" sample_store 0]
  by (simp add: sample_store_def)

section \<open>Properties of calculateDailyWinner\<close>

lemma likes_of_nonneg: "0 \<le> likes_of x"
  by (simp add: likes_of_def num_or_def split: option.splits)

lemma likes_of_cases:
  "likes_of x = (case likes (snd x) of None \<Rightarrow> 0 | Some n \<Rightarrow> int n)"
  by (simp add: likes_of_def num_or_def split: option.splits)

lemma visit_eq:
  "visit (w, m) doc = (if likes_of doc > m then (Val (snapshot_of doc), likes_of doc) else (w, m))"
  by (cases doc) (simp add: visit_def snapshot_of_def likes_of_def Let_def)

text \<open>
  The loop, from any state: either no document exceeds the running maximum and the state is
  unchanged, or the winner is a document that strictly exceeds everything before it and is
  not exceeded by anything after it.
\<close>

lemma forEach_split:
  "forEach docs (w, m) = (w', m') \<Longrightarrow>
     ((\<forall>x \<in> set docs. likes_of x \<le> m) \<and> w' = w \<and> m' = m)
     \<or> (\<exists>pre d post. docs = pre @ d # post
          \<and> (\<forall>x \<in> set pre. likes_of x < likes_of d)
          \<and> (\<forall>x \<in> set post. likes_of x \<le> likes_of d)
          \<and> m < likes_of d \<and> w' = Val (snapshot_of d) \<and> m' = likes_of d)"
proof (induction docs arbitrary: w m)
  case Nil
  then show ?case by simp
next
  case (Cons doc docs)
  show ?case
  proof (cases "likes_of doc > m")
    case True
    with Cons.prems have run: "forEach docs (Val (snapshot_of doc), likes_of doc) = (w', m')"
      by (simp add: visit_eq)
    from Cons.IH [OF run] show ?thesis
    proof
      assume "(\<forall>x \<in> set docs. likes_of x \<le> likes_of doc)
                \<and> w' = Val (snapshot_of doc) \<and> m' = likes_of doc"
      with True have "doc # docs = [] @ doc # docs
          \<and> (\<forall>x \<in> set []. likes_of x < likes_of doc)
          \<and> (\<forall>x \<in> set docs. likes_of x \<le> likes_of doc)
          \<and> m < likes_of doc \<and> w' = Val (snapshot_of doc) \<and> m' = likes_of doc"
        by simp
      then show ?thesis by blast
    next
      assume "\<exists>pre d post. docs = pre @ d # post
          \<and> (\<forall>x \<in> set pre. likes_of x < likes_of d)
          \<and> (\<forall>x \<in> set post. likes_of x \<le> likes_of d)
          \<and> likes_of doc < likes_of d \<and> w' = Val (snapshot_of d) \<and> m' = likes_of d"
      then obtain pre d post where split: "docs = pre @ d # post"
          and before: "\<forall>x \<in> set pre. likes_of x < likes_of d"
          and after: "\<forall>x \<in> set post. likes_of x \<le> likes_of d"
          and more: "likes_of doc < likes_of d"
          and res: "w' = Val (snapshot_of d)" "m' = likes_of d"
        by blast
      from split before after more res True
      have "doc # docs = (doc # pre) @ d # post
          \<and> (\<forall>x \<in> set (doc # pre). likes_of x < likes_of d)
          \<and> (\<forall>x \<in> set post. likes_of x \<le> likes_of d)
          \<and> m < likes_of d \<and> w' = Val (snapshot_of d) \<and> m' = likes_of d"
        by simp
      then show ?thesis by blast
    qed
  next
    case False
    with Cons.prems have run: "forEach docs (w, m) = (w', m')"
      by (simp add: visit_eq)
    from Cons.IH [OF run] show ?thesis
    proof
      assume "(\<forall>x \<in> set docs. likes_of x \<le> m) \<and> w' = w \<and> m' = m"
      with False show ?thesis by simp
    next
      assume "\<exists>pre d post. docs = pre @ d # post
          \<and> (\<forall>x \<in> set pre. likes_of x < likes_of d)
          \<and> (\<forall>x \<in> set post. likes_of x \<le> likes_of d)
          \<and> m < likes_of d \<and> w' = Val (snapshot_of d) \<and> m' = likes_of d"
      then obtain pre d post where split: "docs = pre @ d # post"
          and before: "\<forall>x \<in> set pre. likes_of x < likes_of d"
          and after: "\<forall>x \<in> set post. likes_of x \<le> likes_of d"
          and more: "m < likes_of d"
          and res: "w' = Val (snapshot_of d)" "m' = likes_of d"
        by blast
      from split before after more res False
      have "doc # docs = (doc # pre) @ d # post
          \<and> (\<forall>x \<in> set (doc # pre). likes_of x < likes_of d)
          \<and> (\<forall>x \<in> set post. likes_of x \<le> likes_of d)
          \<and> m < likes_of d \<and> w' = Val (snapshot_of d) \<and> m' = likes_of d"
        by simp
      then show ?thesis by blast
    qed
  qed
qed

lemma forEach_first_maximum:
  assumes "docs \<noteq> []"
  shows "\<exists>pre d post. docs = pre @ d # post
          \<and> (\<forall>x \<in> set pre. likes_of x < likes_of d)
          \<and> (\<forall>x \<in> set post. likes_of x \<le> likes_of d)
          \<and> fst (forEach docs (Null, - 1)) = Val (snapshot_of d)"
proof -
  obtain w' m' where run: "forEach docs (Null, - 1) = (w', m')"
    by (cases "forEach docs (Null, - 1)") auto
  from assms obtain x where "x \<in> set docs" by (cases docs) auto
  moreover have "\<not> likes_of x \<le> - 1"
    using likes_of_nonneg [of x] by linarith
  ultimately have "\<not> (\<forall>x \<in> set docs. likes_of x \<le> - 1)"
    by blast
  with forEach_split [OF run] run show ?thesis by auto
qed

lemma first_maximum_is_Max:
  assumes "docs = pre @ d # post"
      and "\<forall>x \<in> set pre. likes_of x < likes_of d"
      and "\<forall>x \<in> set post. likes_of x \<le> likes_of d"
  shows "likes_of d = Max (likes_of ` set docs)"
proof -
  have "Max (likes_of ` set docs) = likes_of d"
  proof (rule Max_eqI)
    show "finite (likes_of ` set docs)" by simp
    show "likes_of d \<in> likes_of ` set docs" using assms(1) by simp
    fix y assume "y \<in> likes_of ` set docs"
    then show "y \<le> likes_of d" using assms by auto
  qed
  then show ?thesis by simp
qed

lemma ts_le_refl: "ts_le t t"
  by (simp add: ts_le_def)

lemma first_maximum_is_newest:
  assumes "docs = pre @ d # post"
      and "\<forall>x \<in> set pre. likes_of x < likes_of d"
      and "newest_first docs"
      and "x \<in> set docs" and "likes_of x = likes_of d"
  shows "ts_le (timestamp (snd x)) (timestamp (snd d))"
proof -
  from assms(1,2,4,5) have "x = d \<or> x \<in> set post" by auto
  then show ?thesis
  proof
    assume "x = d" then show ?thesis by (simp add: ts_le_refl)
  next
    assume "x \<in> set post"
    with assms(1,3) show ?thesis
      by (auto simp: newest_first_def sorted_wrt_append)
  qed
qed

lemma calculateDailyWinner_returns_null: "fst (calculateDailyWinner env s) = Inr JNull"
  by (simp add: calculateDailyWinner_def calculateDailyWinner_try_def config_set_def Let_def
      split: sum.splits option.splits nullable.splits)

lemma calculateDailyWinner_query_failure:
  "query_outcome env = Inl d \<Longrightarrow>
   snd (calculateDailyWinner env s) =
     (s, [PostsQuery \<lparr>seconds = seconds (now env) - 86400, nanoseconds = nanoseconds (now env)\<rparr>])"
  by (simp add: calculateDailyWinner_def calculateDailyWinner_try_def Let_def)

lemma calculateDailyWinner_set_failure:
  "query_outcome env = Inr docs \<Longrightarrow> set_fault env = Some d \<Longrightarrow>
   \<exists>r. snd (calculateDailyWinner env s) =
     (s, [PostsQuery \<lparr>seconds = seconds (now env) - 86400, nanoseconds = nanoseconds (now env)\<rparr>,
          WinnerSet r])"
  by (simp add: calculateDailyWinner_def calculateDailyWinner_try_def config_set_def Let_def)

lemma calculateDailyWinner_store:
  assumes "query_outcome env = Inr docs" and "docs \<noteq> []" and "set_fault env = None"
  shows "fst (snd (calculateDailyWinner env s)) =
           s\<lparr>vincitoreDelGiorno := Some \<lparr>hasWinner = True,
                dw_winner = Some (fst (forEach docs (Null, - 1))), dw_message = None,
                calculatedAt = At (set_clock env)\<rparr>\<rparr>"
  using assms
  by (simp add: calculateDailyWinner_def calculateDailyWinner_try_def config_set_def
      resolve_time_def Let_def split: nullable.splits)

text \<open>
  Claim C2. When the query returns a non-empty list of documents and the write goes
  through, the document \<^verbatim>\<open>vincitoreDelGiorno\<close> holds the snapshot of the first document of
  the list whose like count is the maximum of the list: every document before it has
  strictly fewer likes, none after it has more. A missing \<^verbatim>\<open>likes\<close> field counts as 0.
  When the list is ordered by timestamp descending, no document with as many likes as the
  winner has a later timestamp than the winner.
\<close>

theorem calculateDailyWinner_first_maximum:
  assumes "query_outcome env = Inr docs" and "docs \<noteq> []" and "set_fault env = None"
  shows "\<exists>pre d post. docs = pre @ d # post
          \<and> (\<forall>x \<in> set pre. likes_of x < likes_of d)
          \<and> (\<forall>x \<in> set post. likes_of x \<le> likes_of d)
          \<and> likes_of d = Max (likes_of ` set docs)
          \<and> (\<forall>x \<in> set docs. likes_of x = (case likes (snd x) of None \<Rightarrow> 0 | Some n \<Rightarrow> int n))
          \<and> fst (snd (calculateDailyWinner env s)) =
               s\<lparr>vincitoreDelGiorno := Some \<lparr>hasWinner = True,
                    dw_winner = Some (Val (snapshot_of d)), dw_message = None,
                    calculatedAt = At (set_clock env)\<rparr>\<rparr>
          \<and> (newest_first docs \<longrightarrow>
               (\<forall>x \<in> set docs. likes_of x = likes_of d \<longrightarrow>
                  ts_le (timestamp (snd x)) (timestamp (snd d))))"
proof -
  from forEach_first_maximum [OF assms(2)]
  obtain pre d post where split: "docs = pre @ d # post"
      and before: "\<forall>x \<in> set pre. likes_of x < likes_of d"
      and after: "\<forall>x \<in> set post. likes_of x \<le> likes_of d"
      and win: "fst (forEach docs (Null, - 1)) = Val (snapshot_of d)"
    by blast
  have top: "likes_of d = Max (likes_of ` set docs)"
    using split before after by (rule first_maximum_is_Max)
  have missing: "\<forall>x \<in> set docs. likes_of x = (case likes (snd x) of None \<Rightarrow> 0 | Some n \<Rightarrow> int n)"
    by (simp add: likes_of_cases)
  have written: "fst (snd (calculateDailyWinner env s)) =
      s\<lparr>vincitoreDelGiorno := Some \<lparr>hasWinner = True,
           dw_winner = Some (Val (snapshot_of d)), dw_message = None,
           calculatedAt = At (set_clock env)\<rparr>\<rparr>"
    using calculateDailyWinner_store [OF assms] win by simp
  have newest: "newest_first docs \<longrightarrow>
      (\<forall>x \<in> set docs. likes_of x = likes_of d \<longrightarrow> ts_le (timestamp (snd x)) (timestamp (snd d)))"
    using first_maximum_is_newest [OF split before] by blast
  from split before after top missing written newest show ?thesis by blast
qed

theorem calculateDailyWinner_first_maximum_witness:
  "query_outcome (sample_run (Inr sample_docs) None) = Inr sample_docs
   \<and> sample_docs \<noteq> []
   \<and> set_fault (sample_run (Inr sample_docs) None) = None
   \<and> newest_first sample_docs
   \<and> (\<exists>pre d post. sample_docs = pre @ d # post
        \<and> (\<forall>x \<in> set pre. likes_of x < likes_of d)
        \<and> (\<forall>x \<in> set post. likes_of x \<le> likes_of d)
        \<and> likes_of d = Max (likes_of ` set sample_docs)
        \<and> (\<forall>x \<in> set sample_docs.
              likes_of x = (case likes (snd x) of None \<Rightarrow> 0 | Some n \<Rightarrow> int n))
        \<and> fst (snd (calculateDailyWinner (sample_run (Inr sample_docs) None) sample_store)) =
             sample_store\<lparr>vincitoreDelGiorno := Some \<lparr>hasWinner = True,
                  dw_winner = Some (Val (snapshot_of d)), dw_message = None,
                  calculatedAt = At (set_clock (sample_run (Inr sample_docs) None))\<rparr>\<rparr>
        \<and> (newest_first sample_docs \<longrightarrow>
             (\<forall>x \<in> set sample_docs. likes_of x = likes_of d \<longrightarrow>
                ts_le (timestamp (snd x)) (timestamp (snd d)))))"
proof -
  have q: "query_outcome (sample_run (Inr sample_docs) None) = Inr sample_docs"
    by (simp add: sample_run_def)
  have n: "sample_docs \<noteq> []"
    by (simp add: sample_docs_def)
  have f: "set_fault (sample_run (Inr sample_docs) None) = None"
    by (simp add: sample_run_def)
  have o: "newest_first sample_docs"
    by (simp add: newest_first_def sample_docs_def sample_post_def ts_le_def)
  from calculateDailyWinner_first_maximum [OF q n f, of sample_store] q n f o
  show ?thesis by blast
qed

text \<open>The run on the sample documents: \<^verbatim>\<open>b\<close> and \<^verbatim>\<open>c\<close> tie at 5 likes, the newer \<^verbatim>\<open>b\<close> wins.\<close>

lemma calculateDailyWinner_sample:
  "map_option dw_winner
     (vincitoreDelGiorno (fst (snd (calculateDailyWinner (sample_run (Inr sample_docs) None)
        sample_store)))) =
   Some (Some (Val \<lparr>w_postId = ''b'', w_imageUrl = Some ''img.jpg'',
     w_thumbnailUrl = Some ''img.jpg'', w_likes = 5, w_userName = ''Eva'', w_userPhotoURL = [],
     w_timestamp = \<lparr>seconds = 300, nanoseconds = 0\<rparr>, w_description = []\<rparr>))"
  by (simp add: calculateDailyWinner_def calculateDailyWinner_try_def config_set_def
      sample_run_def sample_docs_def sample_post_def sample_store_def visit_def num_or_def
      str_or_def opt_or_def Let_def)

text \<open>
  Claim C7. When the query returns no document, the run makes exactly two calls: the query
  and one \<^verbatim>\<open>set\<close> on \<^verbatim>\<open>vincitoreDelGiorno\<close>, of a record with \<^verbatim>\<open>hasWinner\<close> false, the fixed
  message, which is not empty, the server-timestamp sentinel in \<^verbatim>\<open>calculatedAt\<close> and no
  \<^verbatim>\<open>winner\<close> field. When the write goes through, the store differs from the one before only
  in that document, whose \<^verbatim>\<open>calculatedAt\<close> is the clock of the store.
\<close>

theorem calculateDailyWinner_empty_window:
  assumes "query_outcome env = Inr []"
  shows "snd (snd (calculateDailyWinner env s)) =
           [PostsQuery \<lparr>seconds = seconds (now env) - 86400, nanoseconds = nanoseconds (now env)\<rparr>,
            WinnerSet \<lparr>hasWinner = False, dw_winner = None,
              dw_message = Some ''Nessuna pubblicazione oggi'', calculatedAt = ServerTimestamp\<rparr>]
         \<and> ''Nessuna pubblicazione oggi'' \<noteq> []
         \<and> (set_fault env = None \<longrightarrow>
              fst (snd (calculateDailyWinner env s)) =
                s\<lparr>vincitoreDelGiorno := Some \<lparr>hasWinner = False, dw_winner = None,
                     dw_message = Some ''Nessuna pubblicazione oggi'',
                     calculatedAt = At (set_clock env)\<rparr>\<rparr>)"
  using assms
  by (simp add: calculateDailyWinner_def calculateDailyWinner_try_def config_set_def
      resolve_time_def Let_def split: option.splits)

theorem calculateDailyWinner_empty_window_witness:
  "query_outcome (sample_run (Inr []) None) = Inr []
   \<and> set_fault (sample_run (Inr []) None) = None
   \<and> snd (snd (calculateDailyWinner (sample_run (Inr []) None) sample_store)) =
        [PostsQuery \<lparr>seconds = 3600, nanoseconds = 7\<rparr>,
         WinnerSet \<lparr>hasWinner = False, dw_winner = None,
           dw_message = Some ''Nessuna pubblicazione oggi'', calculatedAt = ServerTimestamp\<rparr>]
   \<and> fst (snd (calculateDailyWinner (sample_run (Inr []) None) sample_store)) =
        sample_store\<lparr>vincitoreDelGiorno := Some \<lparr>hasWinner = False, dw_winner = None,
             dw_message = Some ''Nessuna pubblicazione oggi'',
             calculatedAt = At \<lparr>seconds = 90001, nanoseconds = 0\<rparr>\<rparr>\<rparr>"
  using calculateDailyWinner_empty_window [of "sample_run (Inr []) None" sample_store]
  by (simp add: sample_run_def)

section \<open>The background handlers swallow every failure\<close>

text \<open>
  Claim C9. Both background handlers return \<^verbatim>\<open>null\<close> in every invocation, whatever fails.
  A failed read or write is not retried: after a failure the handler makes no further call
  and leaves the store as it was.
\<close>

theorem background_handlers_swallow_failures:
  "fst (updateLikesCount lenv pubId s) = Inr JNull
   \<and> fst (calculateDailyWinner wenv s) = Inr JNull
   \<and> (get_fault lenv = Some d \<longrightarrow> snd (updateLikesCount lenv pubId s) = (s, [LikesGet pubId]))
   \<and> (get_fault lenv = None \<and> update_fault lenv = Some d \<longrightarrow>
        snd (updateLikesCount lenv pubId s) =
          (s, [LikesGet pubId, PostUpdate pubId (fcard (likes_coll s pubId))]))
   \<and> (query_outcome wenv = Inl d \<longrightarrow>
        snd (calculateDailyWinner wenv s) =
          (s, [PostsQuery \<lparr>seconds = seconds (now wenv) - 86400,
                           nanoseconds = nanoseconds (now wenv)\<rparr>]))
   \<and> (query_outcome wenv = Inr docs \<and> set_fault wenv = Some d \<longrightarrow>
        (\<exists>r. snd (calculateDailyWinner wenv s) =
          (s, [PostsQuery \<lparr>seconds = seconds (now wenv) - 86400,
                           nanoseconds = nanoseconds (now wenv)\<rparr>, WinnerSet r])))"
proof (intro conjI impI)
  show "fst (updateLikesCount lenv pubId s) = Inr JNull"
    by (simp add: updateLikesCount_outcome split: option.splits)
  show "fst (calculateDailyWinner wenv s) = Inr JNull"
    by (rule calculateDailyWinner_returns_null)
next
  assume "get_fault lenv = Some d"
  then show "snd (updateLikesCount lenv pubId s) = (s, [LikesGet pubId])"
    by (simp add: updateLikesCount_outcome)
next
  assume "get_fault lenv = None \<and> update_fault lenv = Some d"
  then show "snd (updateLikesCount lenv pubId s) =
      (s, [LikesGet pubId, PostUpdate pubId (fcard (likes_coll s pubId))])"
    by (simp add: updateLikesCount_outcome)
next
  assume "query_outcome wenv = Inl d"
  then show "snd (calculateDailyWinner wenv s) =
      (s, [PostsQuery \<lparr>seconds = seconds (now wenv) - 86400,
                       nanoseconds = nanoseconds (now wenv)\<rparr>])"
    by (rule calculateDailyWinner_query_failure)
next
  assume "query_outcome wenv = Inr docs \<and> set_fault wenv = Some d"
  then show "\<exists>r. snd (calculateDailyWinner wenv s) =
      (s, [PostsQuery \<lparr>seconds = seconds (now wenv) - 86400,
                       nanoseconds = nanoseconds (now wenv)\<rparr>, WinnerSet r])"
    by (intro calculateDailyWinner_set_failure) auto
qed

theorem background_handlers_swallow_failures_witness:
  "get_fault \<lparr>get_fault = Some ''unavailable'', update_fault = None\<rparr> = Some ''unavailable''
   \<and> fst (updateLikesCount \<lparr>get_fault = Some ''unavailable'', update_fault = None\<rparr> ''p1''
        sample_store) = Inr JNull
   \<and> snd (updateLikesCount \<lparr>get_fault = Some ''unavailable'', update_fault = None\<rparr> ''p1''
        sample_store) = (sample_store, [LikesGet ''p1''])
   \<and> get_fault \<lparr>get_fault = None, update_fault = Some ''unavailable''\<rparr> = None
   \<and> update_fault \<lparr>get_fault = None, update_fault = Some ''unavailable''\<rparr> = Some ''unavailable''
   \<and> snd (updateLikesCount \<lparr>get_fault = None, update_fault = Some ''unavailable''\<rparr> ''p1''
        sample_store) = (sample_store, [LikesGet ''p1'', PostUpdate ''p1'' 0])
   \<and> query_outcome (sample_run (Inl ''unavailable'') None) = Inl ''unavailable''
   \<and> fst (calculateDailyWinner (sample_run (Inl ''unavailable'') None) sample_store) = Inr JNull
   \<and> snd (calculateDailyWinner (sample_run (Inl ''unavailable'') None) sample_store) =
        (sample_store, [PostsQuery \<lparr>seconds = 3600, nanoseconds = 7\<rparr>])
   \<and> query_outcome (sample_run (Inr sample_docs) (Some ''unavailable'')) = Inr sample_docs
   \<and> set_fault (sample_run (Inr sample_docs) (Some ''unavailable'')) = Some ''unavailable''
   \<and> (\<exists>r. snd (calculateDailyWinner (sample_run (Inr sample_docs) (Some ''unavailable''))
          sample_store) =
        (sample_store, [PostsQuery \<lparr>seconds = 3600, nanoseconds = 7\<rparr>, WinnerSet r]))"
  using background_handlers_swallow_failures
          [of "\<lparr>get_fault = Some ''unavailable'', update_fault = None\<rparr>" "''p1''" sample_store
              "sample_run (Inl ''unavailable'') None" "''unavailable''" sample_docs]
        background_handlers_swallow_failures
          [of "\<lparr>get_fault = None, update_fault = Some ''unavailable''\<rparr>" "''p1''" sample_store
              "sample_run (Inr sample_docs) (Some ''unavailable'')" "''unavailable''" sample_docs]
  by (simp add: sample_run_def sample_store_def fcard_fempty)

section \<open>Properties of postComment\<close>

lemma starts_with_iff: "starts_with s sub \<longleftrightarrow> (\<exists>post. s = sub @ post)"
  by (induction s sub rule: starts_with.induct) auto

text \<open>\<open>includes_str\<close> is containment of a contiguous substring.\<close>

lemma includes_str_iff: "includes_str s sub \<longleftrightarrow> (\<exists>pre post. s = pre @ sub @ post)"
proof (induction s)
  case Nil
  then show ?case by auto
next
  case (Cons d ds)
  have "(\<exists>pre post. d # ds = pre @ sub @ post) \<longleftrightarrow>
        (\<exists>post. d # ds = sub @ post) \<or> (\<exists>pre post. ds = pre @ sub @ post)"
    by (auto simp: Cons_eq_append_conv)
  with Cons show ?case by (simp add: starts_with_iff)
qed

lemma trim_Nil: "trim [] = []"
  by (simp add: trim_def)

text \<open>A call that passes the checks runs the \<^verbatim>\<open>try\<close> block and its \<^verbatim>\<open>catch\<close>.\<close>

lemma postComment_passes_checks:
  assumes "passes_checks a data p t"
  shows "postComment env (Some a) data s =
           (case postComment_try env a p (trim t) s of
              (Inl error, s', calls) \<Rightarrow> (Inl (rethrown error), s', calls)
            | (Inr v, s', calls) \<Rightarrow> (Inr v, s', calls))"
proof -
  from assms have t: "t \<noteq> []"
    by (auto simp: passes_checks_def trim_Nil)
  with assms show ?thesis
    by (simp add: passes_checks_def postComment_def Let_def)
qed

text \<open>Only such a call makes any call to the classifier or the store.\<close>

lemma postComment_calls_need_checks:
  assumes "snd (snd (postComment env (Some a) data s)) \<noteq> []"
  shows "\<exists>p t. passes_checks a data p t"
proof -
  from assms have prov: "sign_in_provider a \<noteq> ''anonymous''"
    by (auto simp: postComment_def split: if_splits)
  from assms prov obtain pubId body where d: "destructure data = Inr (pubId, body)"
    by (cases "destructure data") (auto simp: postComment_def)
  from assms prov d obtain p where p: "pubId = JStr p" "p \<noteq> []"
    by (cases pubId) (auto simp: postComment_def split: if_splits)
  from assms prov d p obtain t where t: "body = JStr t" "t \<noteq> []"
    by (cases body) (auto simp: postComment_def split: if_splits)
  from assms prov d p t have "trim t \<noteq> [] \<and> length (trim t) \<le> 500"
    by (auto simp: postComment_def Let_def split: if_splits)
  with prov d p t show ?thesis
    by (auto simp: passes_checks_def)
qed

lemma split_on_no_sep: "sep \<notin> set cs \<Longrightarrow> split_on sep cur cs = [rev cur @ cs]"
  by (induction cs arbitrary: cur) auto

text \<open>A string without a slash that is not empty names the document of that id.\<close>

lemma doc_ref_document_id:
  assumes "p \<noteq> []" and "CHR ''/'' \<notin> set p"
  shows "doc_ref p = Inr [p]"
proof -
  have "\<not> includes_str p ''//''"
  proof
    assume "includes_str p ''//''"
    then obtain pre post where "p = pre @ ''//'' @ post"
      by (auto simp: includes_str_iff)
    then have "CHR ''/'' \<in> set p" by simp
    with assms(2) show False by simp
  qed
  moreover from assms have "path_segments p = [p]"
    by (simp add: path_segments_def split_on_no_sep)
  ultimately show ?thesis using assms(1) by (simp add: doc_ref_def)
qed

lemma sample_doc_ref: "doc_ref ''p1'' = Inr [''p1'']"
  by (rule doc_ref_document_id) simp_all

lemma postComment_try_classified:
  assumes "generateContent env (prompt_for trimmedText) = Inr r" and "text_outcome r = Inr v"
  shows "postComment_try env a pubId trimmedText s =
           (if blocked r \<or> includes_str (toUpperCase (trim v)) ''UNSAFE'' then
              (Inl (HttpsError InvalidArgument
                      ''Il tuo commento viola le linee guida della community.''),
               s, [GenerateContent (prompt_for trimmedText)])
            else
              (case doc_ref pubId of
                 Inl e \<Rightarrow> (Inl e, s, [GenerateContent (prompt_for trimmedText)])
               | Inr path \<Rightarrow>
                   (case comments_add (add_fault env) (add_clock env) path
                           (comment_data a trimmedText) s of
                      Inl e \<Rightarrow>
                        (Inl e, s,
                         [GenerateContent (prompt_for trimmedText),
                          CommentAdd path (comment_data a trimmedText)])
                    | Inr s' \<Rightarrow>
                        (Inr (JObj [(''success'', JBool True)]), s',
                         [GenerateContent (prompt_for trimmedText),
                          CommentAdd path (comment_data a trimmedText)]))))"
  using assms by (simp add: postComment_try_def comment_data_def Let_def split: sum.splits)

lemma sample_passes_checks:
  "passes_checks (sample_auth ''google.com'') sample_request ''p1'' '' ciao ''"
  by (simp add: passes_checks_def sample_auth_def sample_request_def destructure_def trim_def
      is_space_def)

lemma sample_trim: "trim '' ciao '' = ''ciao''"
  by (simp add: trim_def is_space_def)




text \<open>
  Claim C5, as the code has it. For a call that has passed the identity check, the
  validation and the classification, whose \<^verbatim>\<open>pubId\<close> names a document below
  \<^verbatim>\<open>pubblicazioni\<close> and whose write goes through, the handler returns \<^verbatim>\<open>{success: true}\<close> and
  the store differs from the one before in one thing: the \<^verbatim>\<open>comments\<close> subcollection of that
  document has one more document, with the trimmed text, the caller's uid, the caller's
  name or \<^verbatim>\<open>Utente\<close> when the name is missing or empty, the caller's picture or \<^verbatim>\<open>null\<close> when
  it is missing or empty, the clock of the store, \<^verbatim>\<open>flagCount\<close> 0 and \<^verbatim>\<open>isHidden\<close> false.
  A \<^verbatim>\<open>pubId\<close> that is not empty and has no slash names the document of that id.
\<close>

theorem postComment_persists_comment:
  assumes "passes_checks a data p t"
      and "generateContent env (prompt_for (trim t)) = Inr r"
      and "text_outcome r = Inr v"
      and "\<not> blocked r" and "\<not> includes_str (toUpperCase (trim v)) ''UNSAFE''"
      and "doc_ref p = Inr path"
      and "add_fault env = None"
  shows "postComment env (Some a) data s =
           (Inr (JObj [(''success'', JBool True)]),
            s\<lparr>comments_coll := (comments_coll s)(path := comments_coll s path @
                 [\<lparr>c_text = trim t,
                   c_userId = uid a,
                   c_userName = (case token_name a of
                                   None \<Rightarrow> ''Utente''
                                 | Some n \<Rightarrow> if n = [] then ''Utente'' else n),
                   c_userImage = (case token_picture a of
                                    None \<Rightarrow> Null
                                  | Some u \<Rightarrow> if u = [] then Null else Val u),
                   c_timestamp = At (add_clock env),
                   c_flagCount = 0,
                   c_isHidden = False\<rparr>])\<rparr>,
            [GenerateContent (prompt_for (trim t)),
             CommentAdd path
               \<lparr>c_text = trim t,
                c_userId = uid a,
                c_userName = (case token_name a of
                                None \<Rightarrow> ''Utente''
                              | Some n \<Rightarrow> if n = [] then ''Utente'' else n),
                c_userImage = (case token_picture a of
                                 None \<Rightarrow> Null
                               | Some u \<Rightarrow> if u = [] then Null else Val u),
                c_timestamp = ServerTimestamp,
                c_flagCount = 0,
                c_isHidden = False\<rparr>])
         \<and> (CHR ''/'' \<notin> set p \<longrightarrow> path = [p])"
proof
  from assms(4-7) show "postComment env (Some a) data s =
           (Inr (JObj [(''success'', JBool True)]),
            s\<lparr>comments_coll := (comments_coll s)(path := comments_coll s path @
                 [\<lparr>c_text = trim t,
                   c_userId = uid a,
                   c_userName = (case token_name a of
                                   None \<Rightarrow> ''Utente''
                                 | Some n \<Rightarrow> if n = [] then ''Utente'' else n),
                   c_userImage = (case token_picture a of
                                    None \<Rightarrow> Null
                                  | Some u \<Rightarrow> if u = [] then Null else Val u),
                   c_timestamp = At (add_clock env),
                   c_flagCount = 0,
                   c_isHidden = False\<rparr>])\<rparr>,
            [GenerateContent (prompt_for (trim t)),
             CommentAdd path
               \<lparr>c_text = trim t,
                c_userId = uid a,
                c_userName = (case token_name a of
                                None \<Rightarrow> ''Utente''
                              | Some n \<Rightarrow> if n = [] then ''Utente'' else n),
                c_userImage = (case token_picture a of
                                 None \<Rightarrow> Null
                               | Some u \<Rightarrow> if u = [] then Null else Val u),
                c_timestamp = ServerTimestamp,
                c_flagCount = 0,
                c_isHidden = False\<rparr>])"
    by (simp add: postComment_passes_checks [OF assms(1)]
        postComment_try_classified [OF assms(2,3)] comments_add_def resolve_time_def
        comment_data_def str_or_def or_null_def)
  from assms(1) have "p \<noteq> []" by (simp add: passes_checks_def)
  with assms(6) show "CHR ''/'' \<notin> set p \<longrightarrow> path = [p]"
    by (auto simp: doc_ref_document_id)
qed

theorem postComment_persists_comment_witness:
  "passes_checks (sample_auth ''google.com'') sample_request ''p1'' '' ciao ''
   \<and> generateContent (sample_call (verdict ''SAFE'') None) (prompt_for (trim '' ciao ''))
       = Inr \<lparr>text_outcome = Inr ''SAFE'', blockReason = None\<rparr>
   \<and> text_outcome \<lparr>text_outcome = Inr ''SAFE'', blockReason = None\<rparr> = Inr ''SAFE''
   \<and> \<not> blocked \<lparr>text_outcome = Inr ''SAFE'', blockReason = None\<rparr>
   \<and> \<not> includes_str (toUpperCase (trim ''SAFE'')) ''UNSAFE''
   \<and> doc_ref ''p1'' = Inr [''p1'']
   \<and> add_fault (sample_call (verdict ''SAFE'') None) = None
   \<and> postComment (sample_call (verdict ''SAFE'') None) (Some (sample_auth ''google.com''))
        sample_request sample_store =
       (Inr (JObj [(''success'', JBool True)]),
        sample_store\<lparr>comments_coll := (comments_coll sample_store)([''p1''] :=
           comments_coll sample_store [''p1''] @
             [\<lparr>c_text = ''ciao'', c_userId = ''u1'', c_userName = ''Ada'', c_userImage = Null,
               c_timestamp = At \<lparr>seconds = 500, nanoseconds = 0\<rparr>, c_flagCount = 0,
               c_isHidden = False\<rparr>])\<rparr>,
        [GenerateContent (prompt_for ''ciao''),
         CommentAdd [''p1'']
           \<lparr>c_text = ''ciao'', c_userId = ''u1'', c_userName = ''Ada'', c_userImage = Null,
            c_timestamp = ServerTimestamp, c_flagCount = 0, c_isHidden = False\<rparr>])"
proof -
  have g: "generateContent (sample_call (verdict ''SAFE'') None) (prompt_for (trim '' ciao ''))
           = Inr \<lparr>text_outcome = Inr ''SAFE'', blockReason = None\<rparr>"
    by (simp add: sample_call_def verdict_def)
  have v: "text_outcome \<lparr>text_outcome = Inr ''SAFE'', blockReason = None\<rparr> = Inr ''SAFE''"
    by simp
  have b: "\<not> blocked \<lparr>text_outcome = Inr ''SAFE'', blockReason = None\<rparr>"
    by (simp add: blocked_def)
  have u: "\<not> includes_str (toUpperCase (trim ''SAFE'')) ''UNSAFE''"
    by (simp add: toUpperCase_def trim_def is_space_def upper_char_def)
  have f: "add_fault (sample_call (verdict ''SAFE'') None) = None"
    by (simp add: sample_call_def)
  from postComment_persists_comment
         [OF sample_passes_checks g v b u sample_doc_ref f, of sample_store]
    sample_passes_checks g v b u sample_doc_ref f
  show ?thesis
    by (simp add: sample_trim sample_auth_def sample_call_def)
qed

text \<open>
  Claim C5, as stated, fails. The request \<^verbatim>\<open>{pubId: 'a/b', text: ' ciao '}\<close> of a signed-in
  caller passes the identity check and the validation, and the classifier answers
  \<^verbatim>\<open>SAFE\<close>; but \<^verbatim>\<open>a/b\<close> does not name a document, building the reference throws, and the
  caller gets \<^verbatim>\<open>internal\<close> with nothing written and no call to the store. And when the store
  refuses the write of a comment on \<^verbatim>\<open>p1\<close>, the caller gets \<^verbatim>\<open>internal\<close> and nothing is
  appended either.
\<close>

theorem postComment_unwritten_counterexample:
  "passes_checks (sample_auth ''google.com'') slash_request ''a/b'' '' ciao ''
   \<and> generateContent (sample_call (verdict ''SAFE'') None) (prompt_for ''ciao'') = verdict ''SAFE''
   \<and> \<not> includes_str (toUpperCase (trim ''SAFE'')) ''UNSAFE''
   \<and> postComment (sample_call (verdict ''SAFE'') None) (Some (sample_auth ''google.com''))
        slash_request sample_store =
       (Inl (HttpsError Internal ''Errore durante l'invio del commento. Riprova.''),
        sample_store, [GenerateContent (prompt_for ''ciao'')])
   \<and> passes_checks (sample_auth ''google.com'') sample_request ''p1'' '' ciao ''
   \<and> fst (postComment (sample_call (verdict ''SAFE'') (Some ''DEADLINE_EXCEEDED''))
        (Some (sample_auth ''google.com'')) sample_request sample_store) =
       Inl (HttpsError Internal ''Errore durante l'invio del commento. Riprova.'')
   \<and> fst (snd (postComment (sample_call (verdict ''SAFE'') (Some ''DEADLINE_EXCEEDED''))
        (Some (sample_auth ''google.com'')) sample_request sample_store)) = sample_store"
  by (simp add: passes_checks_def postComment_def postComment_try_def destructure_def
      slash_request_def sample_request_def sample_auth_def sample_call_def verdict_def
      blocked_def rethrown_def comments_add_def doc_ref_def path_segments_def toUpperCase_def
      trim_def is_space_def upper_char_def Let_def)

text \<open>
  Claim C4. In a call that has passed the checks, an \<^verbatim>\<open>HttpsError\<close> raised inside the
  \<^verbatim>\<open>try\<close> block reaches the caller with the same code and message, and any other exception
  is replaced by the \<^verbatim>\<open>internal\<close> error with the fixed message, whatever its detail was:
  so it is when the classifier call throws, when reading the verdict throws, and when the
  write of the comment fails. The store is then as it was.
\<close>

theorem postComment_error_delivery:
  assumes "passes_checks a data p t"
  shows "rethrown (HttpsError code m) = HttpsError code m
         \<and> rethrown (JsError d) =
             HttpsError Internal ''Errore durante l'invio del commento. Riprova.''
         \<and> (postComment_try env a p (trim t) s = (Inl (HttpsError code m), s', calls) \<longrightarrow>
              postComment env (Some a) data s = (Inl (HttpsError code m), s', calls))
         \<and> (postComment_try env a p (trim t) s = (Inl (JsError d), s', calls) \<longrightarrow>
              postComment env (Some a) data s =
                (Inl (HttpsError Internal ''Errore durante l'invio del commento. Riprova.''),
                 s', calls))
         \<and> (generateContent env (prompt_for (trim t)) = Inl d \<longrightarrow>
              postComment env (Some a) data s =
                (Inl (HttpsError Internal ''Errore durante l'invio del commento. Riprova.''),
                 s, [GenerateContent (prompt_for (trim t))]))
         \<and> (generateContent env (prompt_for (trim t)) = Inr r \<and> text_outcome r = Inl d \<longrightarrow>
              postComment env (Some a) data s =
                (Inl (HttpsError Internal ''Errore durante l'invio del commento. Riprova.''),
                 s, [GenerateContent (prompt_for (trim t))]))
         \<and> (generateContent env (prompt_for (trim t)) = Inr r \<and> text_outcome r = Inr v
              \<and> \<not> blocked r \<and> \<not> includes_str (toUpperCase (trim v)) ''UNSAFE''
              \<and> add_fault env = Some d \<longrightarrow>
              fst (postComment env (Some a) data s) =
                Inl (HttpsError Internal ''Errore durante l'invio del commento. Riprova.'')
              \<and> fst (snd (postComment env (Some a) data s)) = s)"
proof (intro conjI impI)
  note run = postComment_passes_checks [OF assms]
  show "rethrown (HttpsError code m) = HttpsError code m"
    by (simp add: rethrown_def)
  show "rethrown (JsError d) = HttpsError Internal ''Errore durante l'invio del commento. Riprova.''"
    by (simp add: rethrown_def)
  {
    assume "postComment_try env a p (trim t) s = (Inl (HttpsError code m), s', calls)"
    then show "postComment env (Some a) data s = (Inl (HttpsError code m), s', calls)"
      by (simp add: run rethrown_def)
  }
  {
    assume "postComment_try env a p (trim t) s = (Inl (JsError d), s', calls)"
    then show "postComment env (Some a) data s =
        (Inl (HttpsError Internal ''Errore durante l'invio del commento. Riprova.''), s', calls)"
      by (simp add: run rethrown_def)
  }
  {
    assume "generateContent env (prompt_for (trim t)) = Inl d"
    then show "postComment env (Some a) data s =
        (Inl (HttpsError Internal ''Errore durante l'invio del commento. Riprova.''),
         s, [GenerateContent (prompt_for (trim t))])"
      by (simp add: run rethrown_def postComment_try_def Let_def)
  }
  {
    assume "generateContent env (prompt_for (trim t)) = Inr r \<and> text_outcome r = Inl d"
    then show "postComment env (Some a) data s =
        (Inl (HttpsError Internal ''Errore durante l'invio del commento. Riprova.''),
         s, [GenerateContent (prompt_for (trim t))])"
      by (simp add: run rethrown_def postComment_try_def Let_def)
  }
  {
    assume h: "generateContent env (prompt_for (trim t)) = Inr r \<and> text_outcome r = Inr v
        \<and> \<not> blocked r \<and> \<not> includes_str (toUpperCase (trim v)) ''UNSAFE''
        \<and> add_fault env = Some d"
    then have g: "generateContent env (prompt_for (trim t)) = Inr r"
        and v: "text_outcome r = Inr v" by simp_all
    from h show "fst (postComment env (Some a) data s) =
        Inl (HttpsError Internal ''Errore durante l'invio del commento. Riprova.'')"
      by (simp add: run postComment_try_classified [OF g v] comments_add_def doc_ref_def
          rethrown_def)
    from h show "fst (snd (postComment env (Some a) data s)) = s"
      by (simp add: run postComment_try_classified [OF g v] comments_add_def doc_ref_def
          rethrown_def)
  }
qed

theorem postComment_error_delivery_witness:
  "passes_checks (sample_auth ''google.com'') sample_request ''p1'' '' ciao ''
   \<and> generateContent (sample_call (Inl ''ECONNRESET 10.0.0.7'') None) (prompt_for (trim '' ciao ''))
       = Inl ''ECONNRESET 10.0.0.7''
   \<and> postComment (sample_call (Inl ''ECONNRESET 10.0.0.7'') None) (Some (sample_auth ''google.com''))
        sample_request sample_store =
       (Inl (HttpsError Internal ''Errore durante l'invio del commento. Riprova.''),
        sample_store, [GenerateContent (prompt_for ''ciao'')])
   \<and> postComment_try (sample_call (verdict ''UNSAFE'') None) (sample_auth ''google.com'') ''p1''
        (trim '' ciao '') sample_store =
       (Inl (HttpsError InvalidArgument ''Il tuo commento viola le linee guida della community.''),
        sample_store, [GenerateContent (prompt_for ''ciao'')])
   \<and> postComment (sample_call (verdict ''UNSAFE'') None) (Some (sample_auth ''google.com''))
        sample_request sample_store =
       (Inl (HttpsError InvalidArgument ''Il tuo commento viola le linee guida della community.''),
        sample_store, [GenerateContent (prompt_for ''ciao'')])
   \<and> add_fault (sample_call (verdict ''SAFE'') (Some ''DEADLINE_EXCEEDED'')) = Some ''DEADLINE_EXCEEDED''
   \<and> fst (postComment (sample_call (verdict ''SAFE'') (Some ''DEADLINE_EXCEEDED''))
        (Some (sample_auth ''google.com'')) sample_request sample_store) =
       Inl (HttpsError Internal ''Errore durante l'invio del commento. Riprova.'')"
proof -
  have g: "generateContent (sample_call (Inl ''ECONNRESET 10.0.0.7'') None)
             (prompt_for (trim '' ciao '')) = Inl ''ECONNRESET 10.0.0.7''"
    by (simp add: sample_call_def)
  have tried: "postComment_try (sample_call (verdict ''UNSAFE'') None) (sample_auth ''google.com'')
               ''p1'' (trim '' ciao '') sample_store =
             (Inl (HttpsError InvalidArgument
                     ''Il tuo commento viola le linee guida della community.''),
              sample_store, [GenerateContent (prompt_for ''ciao'')])"
    by (simp add: postComment_try_def sample_call_def verdict_def blocked_def toUpperCase_def
        trim_def is_space_def upper_char_def Let_def)
  have safe: "generateContent (sample_call (verdict ''SAFE'') (Some ''DEADLINE_EXCEEDED''))
               (prompt_for (trim '' ciao ''))
             = Inr \<lparr>text_outcome = Inr ''SAFE'', blockReason = None\<rparr>
           \<and> text_outcome \<lparr>text_outcome = Inr ''SAFE'', blockReason = None\<rparr> = Inr ''SAFE''
           \<and> \<not> blocked \<lparr>text_outcome = Inr ''SAFE'', blockReason = None\<rparr>
           \<and> \<not> includes_str (toUpperCase (trim ''SAFE'')) ''UNSAFE''
           \<and> add_fault (sample_call (verdict ''SAFE'') (Some ''DEADLINE_EXCEEDED''))
               = Some ''DEADLINE_EXCEEDED''"
    by (simp add: sample_call_def verdict_def blocked_def toUpperCase_def trim_def is_space_def
        upper_char_def)
  note inst = postComment_error_delivery [OF sample_passes_checks]
  from inst [of _ _ "''ECONNRESET 10.0.0.7''" "sample_call (Inl ''ECONNRESET 10.0.0.7'') None"
              sample_store] g
  have one: "postComment (sample_call (Inl ''ECONNRESET 10.0.0.7'') None)
        (Some (sample_auth ''google.com'')) sample_request sample_store =
       (Inl (HttpsError Internal ''Errore durante l'invio del commento. Riprova.''),
        sample_store, [GenerateContent (prompt_for ''ciao'')])"
    by (simp add: sample_trim)
  from inst [of InvalidArgument "''Il tuo commento viola le linee guida della community.''" _
              "sample_call (verdict ''UNSAFE'') None" sample_store sample_store
              "[GenerateContent (prompt_for ''ciao'')]"] tried
  have two: "postComment (sample_call (verdict ''UNSAFE'') None) (Some (sample_auth ''google.com''))
        sample_request sample_store =
       (Inl (HttpsError InvalidArgument ''Il tuo commento viola le linee guida della community.''),
        sample_store, [GenerateContent (prompt_for ''ciao'')])"
    by blast
  from inst [of _ _ "''DEADLINE_EXCEEDED''" "sample_call (verdict ''SAFE'') (Some ''DEADLINE_EXCEEDED'')"
              sample_store _ _ "\<lparr>text_outcome = Inr ''SAFE'', blockReason = None\<rparr>" "''SAFE''"] safe
  have three: "fst (postComment (sample_call (verdict ''SAFE'') (Some ''DEADLINE_EXCEEDED''))
        (Some (sample_auth ''google.com'')) sample_request sample_store) =
       Inl (HttpsError Internal ''Errore durante l'invio del commento. Riprova.'')"
    by blast
  from sample_passes_checks g one tried two safe three show ?thesis by blast
qed

text \<open>
  Claim C6. Without a caller identity the call fails with \<^verbatim>\<open>unauthenticated\<close>; with an
  identity whose sign-in provider is \<^verbatim>\<open>anonymous\<close> it fails with \<^verbatim>\<open>permission-denied\<close>. Both
  hold for every request, also one that is not an object, and for every behaviour of the
  classifier and the store: the request is not read, no call is made and the store is as it
  was.
\<close>

theorem postComment_identity_first:
  "postComment env None data s =
     (Inl (HttpsError Unauthenticated ''Devi essere autenticato per commentare.''), s, [])
   \<and> (sign_in_provider a = ''anonymous'' \<longrightarrow>
        postComment env (Some a) data s =
          (Inl (HttpsError PermissionDenied
                  ''Gli utenti anonimi non possono commentare. Accedi con Google.''), s, []))"
  by (simp add: postComment_def)

theorem postComment_identity_first_witness:
  "sign_in_provider (sample_auth ''anonymous'') = ''anonymous''
   \<and> postComment (sample_call (verdict ''SAFE'') None) None JNull sample_store =
       (Inl (HttpsError Unauthenticated ''Devi essere autenticato per commentare.''),
        sample_store, [])
   \<and> postComment (sample_call (verdict ''SAFE'') None) (Some (sample_auth ''anonymous'')) JNull
        sample_store =
       (Inl (HttpsError PermissionDenied
               ''Gli utenti anonimi non possono commentare. Accedi con Google.''),
        sample_store, [])"
  using postComment_identity_first
          [of "sample_call (verdict ''SAFE'') None" JNull sample_store "sample_auth ''anonymous''"]
  by (simp add: sample_auth_def)

text \<open>
  Claim C8, as the code has it. The fields of the request are \<^verbatim>\<open>pubId\<close> and \<^verbatim>\<open>text\<close>. For a
  caller that has passed the identity check and a request that is an object: when \<^verbatim>\<open>pubId\<close>
  is missing or not a string the call fails with \<^verbatim>\<open>invalid-argument\<close> and the message about
  \<^verbatim>\<open>pubId\<close>; when \<^verbatim>\<open>text\<close> is missing or not a string it fails with \<^verbatim>\<open>invalid-argument\<close>. In
  both cases no call is made and the store is as it was.
\<close>

theorem postComment_structural_validation:
  assumes "sign_in_provider a \<noteq> ''anonymous''"
  shows "(missing_or_not_string props ''pubId'' \<longrightarrow>
            postComment env (Some a) (JObj props) s =
              (Inl (HttpsError InvalidArgument ''pubId mancante o non valido.''), s, []))
         \<and> (missing_or_not_string props ''text'' \<longrightarrow>
              (\<exists>m. postComment env (Some a) (JObj props) s =
                 (Inl (HttpsError InvalidArgument m), s, [])))"
proof (intro conjI impI)
  assume "missing_or_not_string props ''pubId''"
  then have "\<not> truthy (case map_of props ''pubId'' of None \<Rightarrow> JUndefined | Some v \<Rightarrow> v)
      \<or> typeof (case map_of props ''pubId'' of None \<Rightarrow> JUndefined | Some v \<Rightarrow> v) \<noteq> ''string''"
    by (auto simp: missing_or_not_string_def split: option.splits)
  with assms show "postComment env (Some a) (JObj props) s =
      (Inl (HttpsError InvalidArgument ''pubId mancante o non valido.''), s, [])"
    by (simp add: postComment_def destructure_def)
next
  assume "missing_or_not_string props ''text''"
  then have "\<not> truthy (case map_of props ''text'' of None \<Rightarrow> JUndefined | Some v \<Rightarrow> v)
      \<or> typeof (case map_of props ''text'' of None \<Rightarrow> JUndefined | Some v \<Rightarrow> v) \<noteq> ''string''"
    by (auto simp: missing_or_not_string_def split: option.splits)
  with assms show "\<exists>m. postComment env (Some a) (JObj props) s =
      (Inl (HttpsError InvalidArgument m), s, [])"
    by (simp add: postComment_def destructure_def)
qed

theorem postComment_structural_validation_witness:
  "sign_in_provider (sample_auth ''google.com'') \<noteq> ''anonymous''
   \<and> missing_or_not_string [(''text'', JStr ''ciao'')] ''pubId''
   \<and> postComment (sample_call (verdict ''SAFE'') None) (Some (sample_auth ''google.com''))
        (JObj [(''text'', JStr ''ciao'')]) sample_store =
       (Inl (HttpsError InvalidArgument ''pubId mancante o non valido.''), sample_store, [])
   \<and> missing_or_not_string [(''pubId'', JStr ''p1''), (''text'', JNum 7)] ''text''
   \<and> (\<exists>m. postComment (sample_call (verdict ''SAFE'') None) (Some (sample_auth ''google.com''))
        (JObj [(''pubId'', JStr ''p1''), (''text'', JNum 7)]) sample_store =
       (Inl (HttpsError InvalidArgument m), sample_store, []))"
proof -
  have a: "sign_in_provider (sample_auth ''google.com'') \<noteq> ''anonymous''"
    by (simp add: sample_auth_def)
  have m1: "missing_or_not_string [(''text'', JStr ''ciao'')] ''pubId''"
    by (simp add: missing_or_not_string_def)
  have m2: "missing_or_not_string [(''pubId'', JStr ''p1''), (''text'', JNum 7)] ''text''"
    by (simp add: missing_or_not_string_def)
  from postComment_structural_validation [OF a, of "[(''text'', JStr ''ciao'')]"
         "sample_call (verdict ''SAFE'') None" sample_store]
       postComment_structural_validation [OF a, of "[(''pubId'', JStr ''p1''), (''text'', JNum 7)]"
         "sample_call (verdict ''SAFE'') None" sample_store]
       a m1 m2
  show ?thesis by blast
qed

text \<open>
  Claim C8, as stated, fails. A request with the fields \<^verbatim>\<open>pubId\<close> and \<^verbatim>\<open>text\<close> has no field
  named \<^verbatim>\<open>postId\<close> and is accepted; a request of the shape \<^verbatim>\<open>{postId, text}\<close>, both strings, is
  rejected for its missing \<^verbatim>\<open>pubId\<close>; and a request without either field from a caller with no
  identity fails with \<^verbatim>\<open>unauthenticated\<close>, not with \<^verbatim>\<open>invalid-argument\<close>.
\<close>

theorem postComment_postId_counterexample:
  "property sample_request ''postId'' = Inr JUndefined
   \<and> fst (postComment (sample_call (verdict ''SAFE'') None) (Some (sample_auth ''google.com''))
        sample_request sample_store) = Inr (JObj [(''success'', JBool True)])
   \<and> property renamed_request ''postId'' = Inr (JStr ''p1'')
   \<and> property renamed_request ''text'' = Inr (JStr '' ciao '')
   \<and> postComment (sample_call (verdict ''SAFE'') None) (Some (sample_auth ''google.com''))
        renamed_request sample_store =
       (Inl (HttpsError InvalidArgument ''pubId mancante o non valido.''), sample_store, [])
   \<and> property (JObj []) ''postId'' = Inr JUndefined
   \<and> fst (postComment (sample_call (verdict ''SAFE'') None) None (JObj []) sample_store) =
       Inl (HttpsError Unauthenticated ''Devi essere autenticato per commentare.'')"
  by (simp add: postComment_def postComment_try_def destructure_def sample_request_def
      renamed_request_def sample_auth_def sample_call_def verdict_def blocked_def
      comments_add_def doc_ref_def path_segments_def toUpperCase_def trim_def is_space_def
      upper_char_def Let_def)

text \<open>
  A request that is \<^verbatim>\<open>null\<close> or \<^verbatim>\<open>undefined\<close> cannot be destructured: the \<^verbatim>\<open>TypeError\<close> is
  raised before the \<^verbatim>\<open>try\<close> block and leaves the handler as it is.
\<close>

lemma postComment_null_request:
  assumes "sign_in_provider a \<noteq> ''anonymous''" and "data = JNull \<or> data = JUndefined"
  shows "postComment env (Some a) data s = (Inl (JsError ''TypeError''), s, [])"
  using assms by (auto simp: postComment_def destructure_def)

text \<open>On every other request, a call that fails fails with an \<^verbatim>\<open>HttpsError\<close>.\<close>

lemma postComment_failures_are_typed:
  assumes "data \<noteq> JNull" and "data \<noteq> JUndefined"
      and "fst (postComment env context_auth data s) = Inl e"
  shows "\<exists>code m. e = HttpsError code m"
proof -
  from assms(1,2) obtain pubId body where d: "destructure data = Inr (pubId, body)"
    by (cases data) (auto simp: destructure_def)
  have r: "\<exists>code m. rethrown x = HttpsError code m" for x
    by (cases x) (auto simp: rethrown_def)
  from assms(3) d r show ?thesis
    by (auto simp: postComment_def Let_def split: option.splits if_splits prod.splits sum.splits)
qed

end
